theory Spec2Isabelle
  imports Complex_Main
begin

section \<open>Shared types (shared/src/types/index.ts)\<close>

text \<open>
  \<^verbatim>\<open>export type JobStatus = 'pending' | 'processing' | 'completed' | 'failed';\<close>
  The column \<open>status\<close> of the table holds the same four strings (its CHECK constraint),
  and the code only ever writes these literals.
\<close>

datatype JobStatus = Pending | Processing | Completed | Failed

fun status_text :: "JobStatus \<Rightarrow> string" where
  "status_text Pending = ''pending''"
| "status_text Processing = ''processing''"
| "status_text Completed = ''completed''"
| "status_text Failed = ''failed''"

text \<open>
  Values of a parsed JSON document (the request body, the column \<open>job_data\<close>). An
  object is the list of its properties. A property that is absent reads as
  \<open>undefined\<close>, which is \<open>None\<close> of \<open>json option\<close>.
\<close>

datatype json =
    JNull
  | JBool bool
  | JNum real
  | JStr string
  | JArr "json list"
  | JObj "(string \<times> json) list"

text \<open>JavaScript truthiness, as \<open>!jobType\<close> and \<open>jobData || {}\<close> test it.\<close>

fun truthy :: "json option \<Rightarrow> bool" where
  "truthy None = False"
| "truthy (Some JNull) = False"
| "truthy (Some (JBool b)) = b"
| "truthy (Some (JNum n)) = (n \<noteq> 0)"
| "truthy (Some (JStr s)) = (s \<noteq> [])"
| "truthy (Some (JArr xs)) = True"
| "truthy (Some (JObj kvs)) = True"

text \<open>Reading a property of a value that is neither \<open>null\<close> nor \<open>undefined\<close>.\<close>

fun get_property :: "json \<Rightarrow> string \<Rightarrow> json option" where
  "get_property (JObj kvs) k = map_of kvs k"
| "get_property v k = None"

text \<open>\<open>Array.prototype.includes\<close> on an array of strings: only an equal string is found.\<close>

fun array_includes :: "string list \<Rightarrow> json option \<Rightarrow> bool" where
  "array_includes xs (Some (JStr t)) = (t \<in> set xs)"
| "array_includes xs v = False"

fun string_of :: "json option \<Rightarrow> string" where
  "string_of (Some (JStr t)) = t"
| "string_of v = []"

text \<open>A thrown JavaScript \<open>Error\<close>, with its message.\<close>

datatype js_error = Error string

fun message :: "js_error \<Rightarrow> string" where
  "message (Error m) = m"

text \<open>
  \<^verbatim>\<open>interface JobData\<close>: the payload of a queue message. Timestamps are points of a
  discrete clock.
\<close>

record JobData =
  jobId :: string
  jobType :: string
  jobStatus :: JobStatus
  jobData :: "json option"
  jobResult :: "json option"
  errorMessage :: "string option"
  createdAt :: nat
  updatedAt :: nat
  completedAt :: "nat option"

record CreateJobInput =
  input_jobId :: string
  input_jobType :: string
  input_jobData :: "json option"

section \<open>The table \<open>jobs\<close> (migration 001_create_jobs_table)\<close>

text \<open>
  One row of \<open>jobs\<close>. An identifier is a UUID in the text that \<open>randomUUID\<close> gives
  it (lower case, with hyphens); on such texts the server's comparison of UUIDs is the
  comparison of the texts. A text that is no UUID makes the server reject the
  statement, which is one of the errors that the handlers below take from outside.
  The nullable columns are options. The table is the list of its rows.
\<close>

record job_row =
  row_id :: string
  job_type :: string
  status :: JobStatus
  job_data :: json
  result :: "json option"
  error_message :: "string option"
  created_at :: nat
  updated_at :: nat
  completed_at :: "nat option"

type_synonym jobs_table = "job_row list"

definition job_type_check :: "string \<Rightarrow> bool" where
  "job_type_check t = (t \<in> set [''email'', ''notification'', ''report''])"

text \<open>
  \<^verbatim>\<open>INSERT INTO jobs (id, job_type, status, job_data, created_at, updated_at)
   VALUES ($1, $2, $3, $4, NOW(), NOW())\<close>
  The primary key rejects an id that is already there, the CHECK constraint a job type
  outside its list; the columns left out take their defaults (NULL).
\<close>

definition sql_insert_job ::
  "jobs_table \<Rightarrow> string \<Rightarrow> string \<Rightarrow> JobStatus \<Rightarrow> json \<Rightarrow> nat \<Rightarrow> js_error + jobs_table" where
  "sql_insert_job tbl jid jtype st jdata now =
     (if jid \<in> set (map row_id tbl)
      then Inl (Error ''duplicate key value violates unique constraint jobs_pkey'')
      else if \<not> job_type_check jtype
      then Inl (Error ''new row for relation jobs violates check constraint jobs_job_type_check'')
      else Inr (tbl @ [\<lparr>row_id = jid, job_type = jtype, status = st, job_data = jdata,
                        result = None, error_message = None, created_at = now,
                        updated_at = now, completed_at = None\<rparr>]))"

text \<open>
  The trigger \<open>update_jobs_updated_at\<close>: before every UPDATE of a row,
  \<^verbatim>\<open>NEW.updated_at = NOW()\<close>.
\<close>

definition update_updated_at_column :: "nat \<Rightarrow> job_row \<Rightarrow> job_row" where
  "update_updated_at_column now r = r\<lparr>updated_at := now\<rparr>"

text \<open>\<^verbatim>\<open>UPDATE jobs SET ... WHERE id = $n\<close>: the assignments \<open>f\<close>, then the trigger.\<close>

definition sql_update_jobs :: "(job_row \<Rightarrow> job_row) \<Rightarrow> string \<Rightarrow> nat \<Rightarrow> jobs_table \<Rightarrow> jobs_table" where
  "sql_update_jobs f jid now tbl =
     map (\<lambda>r. if row_id r = jid then update_updated_at_column now (f r) else r) tbl"

text \<open>The three statements of the email processor.\<close>

definition update_processing :: "string \<Rightarrow> nat \<Rightarrow> jobs_table \<Rightarrow> jobs_table" where
  "update_processing jid now =
     sql_update_jobs (\<lambda>r. r\<lparr>status := Processing, updated_at := now\<rparr>) jid now"

definition update_completed :: "string \<Rightarrow> nat \<Rightarrow> jobs_table \<Rightarrow> jobs_table" where
  "update_completed jid now =
     sql_update_jobs (\<lambda>r. r\<lparr>status := Completed, completed_at := Some now, updated_at := now\<rparr>) jid now"

definition update_failed :: "string \<Rightarrow> string \<Rightarrow> nat \<Rightarrow> jobs_table \<Rightarrow> jobs_table" where
  "update_failed msg jid now =
     sql_update_jobs (\<lambda>r. r\<lparr>status := Failed, error_message := Some msg, updated_at := now\<rparr>) jid now"

text \<open>\<^verbatim>\<open>SELECT * FROM jobs WHERE id = $1\<close>\<close>

definition sql_select_by_id :: "jobs_table \<Rightarrow> string \<Rightarrow> job_row list" where
  "sql_select_by_id tbl jid = filter (\<lambda>r. row_id r = jid) tbl"

text \<open>
  \<^verbatim>\<open>ORDER BY created_at DESC\<close>, as an insertion sort. SQL leaves the order of rows
  with equal keys open; here they keep the order of the table.
\<close>

fun insert_desc :: "job_row \<Rightarrow> job_row list \<Rightarrow> job_row list" where
  "insert_desc r [] = [r]"
| "insert_desc r (x # xs) =
     (if created_at x \<le> created_at r then r # x # xs else x # insert_desc r xs)"

fun order_by_created_at_desc :: "job_row list \<Rightarrow> job_row list" where
  "order_by_created_at_desc [] = []"
| "order_by_created_at_desc (r # rs) = insert_desc r (order_by_created_at_desc rs)"


text \<open>The integers of the type \<open>bigint\<close>, which LIMIT and OFFSET take.\<close>

definition bigint :: "int \<Rightarrow> bool" where
  "bigint n = (- 9223372036854775808 \<le> n \<and> n \<le> 9223372036854775807)"

text \<open>
  \<^verbatim>\<open>SELECT * FROM jobs WHERE 1=1 [AND status = $1] ORDER BY created_at DESC
   LIMIT $n OFFSET $m\<close>
  The condition on \<open>status\<close> is there when a status is given, and compares the column
  with the text of the parameter. \<open>limit\<close> and \<open>offset\<close> are the integers that the
  server reads from the texts of its last two parameters; \<open>None\<close> is the text
  \<open>NaN\<close>. The server rejects a text that is no integer or is outside \<open>bigint\<close> when
  it reads the parameters, and a negative OFFSET or LIMIT when it runs the statement.
\<close>

definition sql_select_jobs ::
  "jobs_table \<Rightarrow> string option \<Rightarrow> int option \<Rightarrow> int option \<Rightarrow> js_error + job_row list" where
  "sql_select_jobs tbl st limit offset =
     (case limit of
        None \<Rightarrow> Inl (Error ''invalid input syntax for type bigint: NaN'')
      | Some l \<Rightarrow>
         if \<not> bigint l then Inl (Error ''value is out of range for type bigint'')
         else
           (case offset of
              None \<Rightarrow> Inl (Error ''invalid input syntax for type bigint: NaN'')
            | Some off \<Rightarrow>
                if \<not> bigint off then Inl (Error ''value is out of range for type bigint'')
                else if off < 0 then Inl (Error ''OFFSET must not be negative'')
                else if l < 0 then Inl (Error ''LIMIT must not be negative'')
                else Inr (take (nat l) (drop (nat off)
                       (order_by_created_at_desc
                          (filter (\<lambda>r. case st of None \<Rightarrow> True
                                        | Some v \<Rightarrow> status_text (status r) = v) tbl))))))"

section \<open>The queues (nextjs-app/shared/lib/queue.ts)\<close>

datatype backoff_type = Fixed | Exponential

record backoff_options =
  backoff_type :: backoff_type
  backoff_delay :: nat

text \<open>The optional argument \<open>options\<close> of \<open>publishJob\<close>; an absent field is \<open>None\<close>.\<close>

record publish_options =
  option_delay :: "nat option"
  option_attempts :: "nat option"
  option_backoff :: "backoff_options option"

record job_options =
  delay :: "nat option"
  attempts :: nat
  backoff :: backoff_options

text \<open>
  A job of the queue library as the code sees it: the id the library gave it, its name,
  its data and its options.
\<close>

record bull_job =
  bull_id :: string
  bull_name :: string
  bull_data :: JobData
  bull_options :: job_options

text \<open>The broker: for every queue name the jobs added to it, oldest first.\<close>

type_synonym broker = "string \<Rightarrow> bull_job list"

text \<open>\<open>options?.attempts || 3\<close>: absent and \<open>0\<close> are falsy.\<close>

definition attempts_or_default :: "publish_options option \<Rightarrow> nat" where
  "attempts_or_default options =
     (case options of None \<Rightarrow> 3
      | Some opts \<Rightarrow> (case option_attempts opts of None \<Rightarrow> 3
                      | Some n \<Rightarrow> if n = 0 then 3 else n))"

definition backoff_or_default :: "publish_options option \<Rightarrow> backoff_options" where
  "backoff_or_default options =
     (case options of None \<Rightarrow> \<lparr>backoff_type = Exponential, backoff_delay = 2000\<rparr>
      | Some opts \<Rightarrow> (case option_backoff opts of
                        None \<Rightarrow> \<lparr>backoff_type = Exponential, backoff_delay = 2000\<rparr>
                      | Some b \<Rightarrow> b))"

definition delay_of :: "publish_options option \<Rightarrow> nat option" where
  "delay_of options = (case options of None \<Rightarrow> None | Some opts \<Rightarrow> option_delay opts)"

text \<open>
  \<open>publishJob\<close>. What \<open>queue.add\<close> does is the library's: \<open>added\<close> is its outcome,
  the message it rejects with or the id it gives the new job. The job is added to the
  queue \<open>queueName\<close> under the name \<open>queueName\<close>.
\<close>

definition publishJob ::
  "broker \<Rightarrow> string + string \<Rightarrow> string \<Rightarrow> JobData \<Rightarrow> publish_options option
     \<Rightarrow> (js_error + string) \<times> broker" where
  "publishJob qs added queueName jd options =
     (case added of
        Inl m \<Rightarrow> (Inl (Error m), qs)
      | Inr new_id \<Rightarrow>
          (Inr new_id,
           qs(queueName := qs queueName @
              [\<lparr>bull_id = new_id, bull_name = queueName, bull_data = jd,
                bull_options = \<lparr>delay = delay_of options,
                                 attempts = attempts_or_default options,
                                 backoff = backoff_or_default options\<rparr>\<rparr>])))"

text \<open>\<open>publishEmailJob\<close>; \<open>date1\<close> and \<open>date2\<close> are its two readings of the clock.\<close>

definition publishEmailJob ::
  "broker \<Rightarrow> string + string \<Rightarrow> nat \<Rightarrow> nat \<Rightarrow> CreateJobInput \<Rightarrow> publish_options option
     \<Rightarrow> (js_error + string) \<times> broker" where
  "publishEmailJob qs added date1 date2 input options =
     publishJob qs added ''email''
       \<lparr>jobId = input_jobId input, jobType = input_jobType input, jobStatus = Pending,
        jobData = input_jobData input, jobResult = None, errorMessage = None,
        createdAt = date1, updatedAt = date2, completedAt = None\<rparr>
       options"

section \<open>State of the system\<close>

text \<open>What the processes write to their consoles, one constructor for each call in the code.\<close>

datatype log_line =
    ErrorCreatingJob string
  | ErrorFetchingJobs string
  | ProcessingEmailJob string
  | SendingEmail string "json option"
  | EmailJobCompleted string
  | EmailJobFailed string string
  | WorkerJobCompleted string
  | WorkerJobFailed string string

record state =
  jobs :: jobs_table
  queues :: broker
  console :: "log_line list"

definition log :: "log_line \<Rightarrow> state \<Rightarrow> state" where
  "log l s = s\<lparr>console := console s @ [l]\<rparr>"

section \<open>The route /api/jobs (nextjs-app/app/api/jobs/route.ts)\<close>

datatype response =
    Created string
  | BadRequest string
  | NotFound
  | ServerError string string
  | JobFound job_row
  | JobList "job_row list" nat "int option" "int option"

text \<open>
  What the world outside the handler contributes to one run of \<open>POST\<close>:
  the value of \<open>randomUUID()\<close>; the outcome of the INSERT as far as the server and
  the connection decide it (the message of the error that \<open>getDbClient\<close> or the query
  throws, or the value of \<open>NOW()\<close>); the two readings of the clock in
  \<open>publishEmailJob\<close>; the outcome of \<open>queue.add\<close>.
\<close>

record post_env =
  randomUUID :: string
  insert_now :: "string + nat"
  new_Date1 :: nat
  new_Date2 :: nat
  queue_add :: "string + string"

definition validJobTypes :: "string list" where
  "validJobTypes = [''email'', ''notification'', ''report'']"

text \<open>\<open>jobData || {}\<close>\<close>

definition or_empty_object :: "json option \<Rightarrow> json" where
  "or_empty_object v = (if truthy v then the v else JObj [])"

text \<open>The \<open>catch\<close> block of \<open>POST\<close>.\<close>

definition catch_POST :: "js_error \<Rightarrow> state \<Rightarrow> response \<times> state" where
  "catch_POST e s =
     (ServerError ''Failed to create job'' (message e), log (ErrorCreatingJob (message e)) s)"

text \<open>
  \<open>POST\<close>. The argument is the outcome of \<open>request.json()\<close>: \<open>None\<close> when the body
  is not JSON. Destructuring \<open>null\<close> throws. The messages of these two errors are the
  runtime's; the texts here stand for them.
\<close>

definition POST :: "state \<Rightarrow> post_env \<Rightarrow> json option \<Rightarrow> response \<times> state" where
  "POST s env request_json =
     (case request_json of
        None \<Rightarrow> catch_POST (Error ''Unexpected end of JSON input'') s
      | Some body \<Rightarrow>
          if body = JNull
          then catch_POST (Error ''Cannot destructure property jobType of body as it is null.'') s
          else
            let jobType = get_property body ''jobType'';
                jobData = get_property body ''jobData''
            in
              if \<not> truthy jobType \<or> \<not> array_includes validJobTypes jobType
              then (BadRequest ''Invalid job type. Must be one of: email, notification, report'', s)
              else
                let jobId = randomUUID env in
                (case insert_now env of
                   Inl m \<Rightarrow> catch_POST (Error m) s
                 | Inr now \<Rightarrow>
                    (case sql_insert_job (jobs s) jobId (string_of jobType) Pending
                            (or_empty_object jobData) now of
                       Inl e \<Rightarrow> catch_POST e s
                     | Inr tbl \<Rightarrow>
                        let s1 = s\<lparr>jobs := tbl\<rparr>;
                            createJobInput =
                              \<lparr>input_jobId = jobId, input_jobType = string_of jobType,
                               input_jobData = Some (or_empty_object jobData)\<rparr>
                        in
                          (case publishEmailJob (queues s1) (queue_add env)
                                  (new_Date1 env) (new_Date2 env) createJobInput None of
                             (Inl e, qs) \<Rightarrow> catch_POST e (s1\<lparr>queues := qs\<rparr>)
                           | (Inr _, qs) \<Rightarrow> (Created jobId, s1\<lparr>queues := qs\<rparr>)))))"

text \<open>
  Texts are sequences of bytes, in UTF-8. The white space that \<open>parseInt\<close> skips is
  that of the language: TAB, LF, VT, FF, CR and the space; U+00A0; U+1680, U+2000 to
  U+200A, U+2028, U+2029, U+202F, U+205F and U+3000; U+FEFF. Those after the space are
  two or three bytes each.
\<close>

definition is_space1 :: "char \<Rightarrow> bool" where
  "is_space1 a = (a \<in> set [CHR 0x09, CHR 0x0A, CHR 0x0B, CHR 0x0C, CHR 0x0D, CHR 0x20])"

definition is_space2 :: "char \<Rightarrow> char \<Rightarrow> bool" where
  "is_space2 a b = (a = CHR 0xC2 \<and> b = CHR 0xA0)"

definition is_space3 :: "char \<Rightarrow> char \<Rightarrow> char \<Rightarrow> bool" where
  "is_space3 a b c =
     ((a = CHR 0xE1 \<and> b = CHR 0x9A \<and> c = CHR 0x80) \<or>
      (a = CHR 0xE2 \<and> b = CHR 0x80 \<and>
         c \<in> set [CHR 0x80, CHR 0x81, CHR 0x82, CHR 0x83, CHR 0x84, CHR 0x85, CHR 0x86,
                  CHR 0x87, CHR 0x88, CHR 0x89, CHR 0x8A, CHR 0xA8, CHR 0xA9, CHR 0xAF]) \<or>
      (a = CHR 0xE2 \<and> b = CHR 0x81 \<and> c = CHR 0x9F) \<or>
      (a = CHR 0xE3 \<and> b = CHR 0x80 \<and> c = CHR 0x80) \<or>
      (a = CHR 0xEF \<and> b = CHR 0xBB \<and> c = CHR 0xBF))"

fun trim_start :: "string \<Rightarrow> string" where
  "trim_start (a # b # c # t) =
     (if is_space1 a then trim_start (b # c # t)
      else if is_space2 a b then trim_start (c # t)
      else if is_space3 a b c then trim_start t
      else a # b # c # t)"
| "trim_start [a, b] =
     (if is_space1 a then trim_start [b] else if is_space2 a b then [] else [a, b])"
| "trim_start [a] = (if is_space1 a then [] else [a])"
| "trim_start [] = []"

text \<open>
  \<open>parseInt(text, 10)\<close>: leading white space, an optional sign, then the longest run
  of decimal digits; \<open>NaN\<close> (\<open>None\<close>) when there is no digit. The value here is the
  exact integer. The number of JavaScript is that integer as long as it is at most
  \<open>Number.MAX_SAFE_INTEGER\<close> in size, and then the text that the database driver
  makes of it is the integer again; a larger one is rounded to a double. What is proved
  of \<open>GET\<close> below is proved for parameters that \<open>exact_number\<close> admits.
\<close>

definition is_digit :: "char \<Rightarrow> bool" where
  "is_digit c = (c \<in> set ''0123456789'')"

definition digit_value :: "char \<Rightarrow> int" where
  "digit_value c = int (of_char c) - 48"

definition digits_value :: "string \<Rightarrow> int" where
  "digits_value ds = foldl (\<lambda>a c. 10 * a + digit_value c) 0 ds"

definition parseInt10 :: "string \<Rightarrow> int option" where
  "parseInt10 text =
     (let t = trim_start text;
          negative = (t \<noteq> [] \<and> hd t = CHR ''-'');
          signed = (t \<noteq> [] \<and> (hd t = CHR ''-'' \<or> hd t = CHR ''+''));
          ds = takeWhile is_digit (if signed then tl t else t)
      in if ds = [] then None
         else Some (if negative then - digits_value ds else digits_value ds))"



text \<open>\<open>searchParams.get(name) || fallback\<close>: \<open>null\<close> and the empty string are falsy.\<close>

definition or_default :: "string option \<Rightarrow> string \<Rightarrow> string" where
  "or_default v fallback = (case v of None \<Rightarrow> fallback | Some t \<Rightarrow> if t = [] then fallback else t)"

text \<open>\<open>if (jobId)\<close>, \<open>if (status)\<close>: a parameter counts when it is there and not empty.\<close>

definition given :: "string option \<Rightarrow> string option" where
  "given v = (case v of None \<Rightarrow> None | Some t \<Rightarrow> if t = [] then None else Some t)"

definition catch_GET :: "js_error \<Rightarrow> state \<Rightarrow> response \<times> state" where
  "catch_GET e s =
     (ServerError ''Failed to fetch jobs'' (message e), log (ErrorFetchingJobs (message e)) s)"

text \<open>
  \<open>GET\<close>. \<open>searchParams\<close> is the query string as a list of pairs, and
  \<open>searchParams.get\<close> finds the first pair of a name. \<open>db_error\<close> is the message of
  the error, if any, that \<open>getDbClient\<close> or the connection throws.
\<close>

definition GET :: "state \<Rightarrow> string option \<Rightarrow> (string \<times> string) list \<Rightarrow> response \<times> state" where
  "GET s db_error searchParams =
     (let jobId = map_of searchParams ''jobId'';
          status_param = map_of searchParams ''status'';
          limit = parseInt10 (or_default (map_of searchParams ''limit'') ''50'');
          offset = parseInt10 (or_default (map_of searchParams ''offset'') ''0'')
      in
        (case db_error of
           Some m \<Rightarrow> catch_GET (Error m) s
         | None \<Rightarrow>
            (case given jobId of
               Some jid \<Rightarrow>
                 (case sql_select_by_id (jobs s) jid of
                    [] \<Rightarrow> (NotFound, s)
                  | r # rs \<Rightarrow> (JobFound r, s))
             | None \<Rightarrow>
                 (case sql_select_jobs (jobs s) (given status_param) limit offset of
                    Inl e \<Rightarrow> catch_GET e s
                  | Inr rows \<Rightarrow> (JobList rows (length rows) limit offset, s)))))"

section \<open>The worker (email processor and worker entry point)\<close>

text \<open>
  What the database contributes to one run of the processor: for each of its three
  UPDATE statements the message of the error thrown, or the value of \<open>NOW()\<close>.
\<close>

record worker_env =
  processing_now :: "string + nat"
  completed_now :: "string + nat"
  failed_now :: "string + nat"

text \<open>
  \<open>processEmailJob\<close>: \<open>Inr ()\<close> when the promise resolves, \<open>Inl e\<close> when it rejects
  with \<open>e\<close>. The first UPDATE is outside the \<open>try\<close>. Inside it only the second UPDATE can
  throw; the \<open>catch\<close> block then runs the third and throws the first error again, unless
  the third UPDATE throws itself.
\<close>

definition processEmailJob :: "state \<Rightarrow> worker_env \<Rightarrow> bull_job \<Rightarrow> (js_error + unit) \<times> state" where
  "processEmailJob s env job =
     (let s0 = log (ProcessingEmailJob (bull_id job)) s;
          jid = jobId (bull_data job);
          jd = jobData (bull_data job)
      in
        (case processing_now env of
           Inl m \<Rightarrow> (Inl (Error m), s0)
         | Inr t1 \<Rightarrow>
            let s1 = s0\<lparr>jobs := update_processing jid t1 (jobs s0)\<rparr>;
                s2 = log (SendingEmail jid jd) s1
            in
              (case completed_now env of
                 Inr t2 \<Rightarrow>
                   (Inr (), log (EmailJobCompleted jid)
                              (s2\<lparr>jobs := update_completed jid t2 (jobs s2)\<rparr>))
               | Inl m \<Rightarrow>
                   let s3 = log (EmailJobFailed jid m) s2 in
                   (case failed_now env of
                      Inl m' \<Rightarrow> (Inl (Error m'), s3)
                    | Inr t3 \<Rightarrow>
                        (Inl (Error m), s3\<lparr>jobs := update_failed m jid t3 (jobs s3)\<rparr>)))))"

text \<open>
  The worker is created on the queue \<open>email\<close> and hands every job it is given to the
  processor. Its handlers of the events \<open>completed\<close> and \<open>failed\<close> write a line when
  the processor has resolved or rejected. Which job the queue library gives the worker,
  when, and how often, is the library's: a run below may deliver any job at any time.
\<close>

definition emailWorker_queue :: string where
  "emailWorker_queue = ''email''"

definition emailWorker :: "state \<Rightarrow> worker_env \<Rightarrow> bull_job \<Rightarrow> (js_error + unit) \<times> state" where
  "emailWorker s env job =
     (case processEmailJob s env job of
        (Inr u, s') \<Rightarrow> (Inr u, log (WorkerJobCompleted (bull_id job)) s')
      | (Inl e, s') \<Rightarrow> (Inl e, log (WorkerJobFailed (bull_id job) (message e)) s'))"

section \<open>Runs of the system\<close>

text \<open>
  A run is a sequence of calls, each one a whole execution of a handler of the route
  or of the worker, with what the world contributes to it. The calls of a run follow
  one another; two handlers that interleave at their \<open>await\<close>s are not a run.
\<close>

datatype call =
    CallPOST post_env "json option"
  | CallGET "string option" "(string \<times> string) list"
  | CallWorker worker_env bull_job

fun after :: "state \<Rightarrow> call \<Rightarrow> state" where
  "after s (CallPOST env rq) = snd (POST s env rq)"
| "after s (CallGET db_error ps) = snd (GET s db_error ps)"
| "after s (CallWorker env job) = snd (emailWorker s env job)"

definition run :: "state \<Rightarrow> call list \<Rightarrow> state" where
  "run s cs = foldl after s cs"

text \<open>The job id a call hands back to its client: that of a 201 response.\<close>

fun returned_id :: "response \<Rightarrow> string list" where
  "returned_id (Created jid) = [jid]"
| "returned_id r = []"

fun returned :: "state \<Rightarrow> call \<Rightarrow> string list" where
  "returned s (CallPOST env rq) = returned_id (fst (POST s env rq))"
| "returned s c = []"

fun returned_ids :: "state \<Rightarrow> call list \<Rightarrow> string list" where
  "returned_ids s [] = []"
| "returned_ids s (c # cs) = returned s c @ returned_ids (after s c) cs"

text \<open>
  The handler of an email job is the simulated sending, which shows as a line of the
  console; its executions for a job are counted there.
\<close>

fun is_sending :: "string \<Rightarrow> log_line \<Rightarrow> bool" where
  "is_sending jid (SendingEmail j d) = (j = jid)"
| "is_sending jid l = False"

definition handler_runs :: "string \<Rightarrow> state \<Rightarrow> nat" where
  "handler_runs jid s = length (filter (is_sending jid) (console s))"

definition ids :: "state \<Rightarrow> string set" where
  "ids s = set (map row_id (jobs s))"

text \<open>
  The transitions that the specification allows to \<open>updateStatus\<close>, in its words:
  pending to processing, processing to completed, processing to failed, failed to
  pending. The code has no such table; it is here to state the claim about it.
\<close>

fun spec_transition :: "JobStatus \<Rightarrow> JobStatus \<Rightarrow> bool" where
  "spec_transition Pending Processing = True"
| "spec_transition Processing Completed = True"
| "spec_transition Processing Failed = True"
| "spec_transition Failed Pending = True"
| "spec_transition a b = False"

text \<open>Two states of one row: the columns that no UPDATE of the code assigns agree.\<close>

definition same_job :: "job_row \<Rightarrow> job_row \<Rightarrow> bool" where
  "same_job r r' =
     (row_id r' = row_id r \<and> job_type r' = job_type r \<and> job_data r' = job_data r \<and>
      result r' = result r \<and> created_at r' = created_at r)"

section \<open>Concrete inputs\<close>

definition state0 :: state where
  "state0 = \<lparr>jobs = [], queues = (\<lambda>q. []), console = []\<rparr>"

definition uuid1 :: string where
  "uuid1 = ''3f2b8c1e-7a41-4d6f-9b0a-5e1c2d3f4a5b''"

definition uuid2 :: string where
  "uuid2 = ''9c4d7e2a-1b3f-4c8d-a6e5-0f1e2d3c4b5a''"

definition env1 :: post_env where
  "env1 = \<lparr>randomUUID = uuid1, insert_now = Inr 100, new_Date1 = 101, new_Date2 = 101,
           queue_add = Inr ''1''\<rparr>"

definition env2 :: post_env where
  "env2 = \<lparr>randomUUID = uuid2, insert_now = Inr 200, new_Date1 = 201, new_Date2 = 201,
           queue_add = Inr ''2''\<rparr>"

definition email_body :: json where
  "email_body = JObj [(''jobType'', JStr ''email''), (''jobData'', JObj [(''to'', JStr ''a@b.com'')])]"

definition report_body :: json where
  "report_body = JObj [(''jobType'', JStr ''report'')]"

definition sms_body :: json where
  "sms_body = JObj [(''jobType'', JStr ''sms''), (''jobData'', JObj [(''to'', JStr ''a@b.com'')])]"

text \<open>The row, the message and the state that the first submission leaves.\<close>

definition row1 :: job_row where
  "row1 = \<lparr>row_id = uuid1, job_type = ''email'', status = Pending,
           job_data = JObj [(''to'', JStr ''a@b.com'')], result = None, error_message = None,
           created_at = 100, updated_at = 100, completed_at = None\<rparr>"

definition job1 :: bull_job where
  "job1 = \<lparr>bull_id = ''1'', bull_name = ''email'',
           bull_data = \<lparr>jobId = uuid1, jobType = ''email'', jobStatus = Pending,
                        jobData = Some (JObj [(''to'', JStr ''a@b.com'')]), jobResult = None,
                        errorMessage = None, createdAt = 101, updatedAt = 101,
                        completedAt = None\<rparr>,
           bull_options = \<lparr>delay = None, attempts = 3,
                           backoff = \<lparr>backoff_type = Exponential, backoff_delay = 2000\<rparr>\<rparr>\<rparr>"

definition state1 :: state where
  "state1 = \<lparr>jobs = [row1], queues = (\<lambda>q. [])(''email'' := [job1]), console = []\<rparr>"

definition row2 :: job_row where
  "row2 = \<lparr>row_id = uuid2, job_type = ''report'', status = Pending,
           job_data = JObj [], result = None, error_message = None,
           created_at = 200, updated_at = 200, completed_at = None\<rparr>"

text \<open>Runs of the processor: all statements succeed; the completing UPDATE throws.\<close>

definition worker_ok :: "nat \<Rightarrow> worker_env" where
  "worker_ok t = \<lparr>processing_now = Inr t, completed_now = Inr (t + 1), failed_now = Inr (t + 1)\<rparr>"

definition worker_db_lost :: "nat \<Rightarrow> worker_env" where
  "worker_db_lost t = \<lparr>processing_now = Inr t, completed_now = Inl ''Connection terminated unexpectedly'',
                       failed_now = Inr (t + 1)\<rparr>"

text \<open>The second submission, of a report, and the state after it.\<close>

definition job2 :: bull_job where
  "job2 = \<lparr>bull_id = ''2'', bull_name = ''email'',
           bull_data = \<lparr>jobId = uuid2, jobType = ''report'', jobStatus = Pending,
                        jobData = Some (JObj []), jobResult = None,
                        errorMessage = None, createdAt = 201, updatedAt = 201,
                        completedAt = None\<rparr>,
           bull_options = \<lparr>delay = None, attempts = 3,
                           backoff = \<lparr>backoff_type = Exponential, backoff_delay = 2000\<rparr>\<rparr>\<rparr>"

definition state2 :: state where
  "state2 = \<lparr>jobs = [row1, row2], queues = (\<lambda>q. [])(''email'' := [job1, job2]), console = []\<rparr>"

text \<open>Submissions that meet a database, or a broker, that is not reachable.\<close>

definition env_db_down :: post_env where
  "env_db_down = \<lparr>randomUUID = uuid2, insert_now = Inl ''connect ECONNREFUSED'', new_Date1 = 201,
                  new_Date2 = 201, queue_add = Inr ''2''\<rparr>"

definition env_broker_down :: post_env where
  "env_broker_down = \<lparr>randomUUID = uuid2, insert_now = Inr 200, new_Date1 = 201,
                  new_Date2 = 201, queue_add = Inl ''connect ECONNREFUSED''\<rparr>"

text \<open>The first job once the processor has completed it (started at 150), and the state then.\<close>

definition row1_done :: job_row where
  "row1_done = row1\<lparr>status := Completed, updated_at := 151, completed_at := Some 151\<rparr>"

definition state1_done :: state where
  "state1_done =
     \<lparr>jobs = [row1_done], queues = (\<lambda>q. [])(''email'' := [job1]),
      console = [ProcessingEmailJob ''1'',
                 SendingEmail uuid1 (Some (JObj [(''to'', JStr ''a@b.com'')])),
                 EmailJobCompleted uuid1, WorkerJobCompleted ''1'']\<rparr>"




text \<open>A run of the processor in which the database is lost after the first UPDATE.\<close>

definition worker_db_gone :: worker_env where
  "worker_db_gone = \<lparr>processing_now = Inr 500, completed_now = Inl ''Connection terminated unexpectedly'',
                     failed_now = Inl ''Connection terminated unexpectedly''\<rparr>"

text \<open>The row and the queue job that a successful \<open>POST\<close> writes.\<close>

definition new_row :: "post_env \<Rightarrow> json \<Rightarrow> nat \<Rightarrow> job_row" where
  "new_row env body now =
     \<lparr>row_id = randomUUID env, job_type = string_of (get_property body ''jobType''),
      status = Pending, job_data = or_empty_object (get_property body ''jobData''),
      result = None, error_message = None, created_at = now, updated_at = now,
      completed_at = None\<rparr>"

definition new_job :: "post_env \<Rightarrow> json \<Rightarrow> string \<Rightarrow> bull_job" where
  "new_job env body bid =
     \<lparr>bull_id = bid, bull_name = ''email'',
      bull_data = \<lparr>jobId = randomUUID env, jobType = string_of (get_property body ''jobType''),
                   jobStatus = Pending,
                   jobData = Some (or_empty_object (get_property body ''jobData'')),
                   jobResult = None, errorMessage = None, createdAt = new_Date1 env,
                   updatedAt = new_Date2 env, completedAt = None\<rparr>,
      bull_options = \<lparr>delay = None, attempts = 3,
                       backoff = \<lparr>backoff_type = Exponential, backoff_delay = 2000\<rparr>\<rparr>\<rparr>"

section \<open>Properties of the handlers\<close>

subsection \<open>Validation\<close>

lemma valid_truthy: "array_includes validJobTypes v \<Longrightarrow> truthy v"
  by (cases "(validJobTypes, v)" rule: array_includes.cases) (auto simp: validJobTypes_def)

lemma valid_check: "array_includes validJobTypes v \<Longrightarrow> job_type_check (string_of v)"
  by (cases "(validJobTypes, v)" rule: array_includes.cases)
     (auto simp: validJobTypes_def job_type_check_def)

lemma valid_string: "array_includes validJobTypes v \<Longrightarrow> string_of v \<in> set validJobTypes"
  by (cases "(validJobTypes, v)" rule: array_includes.cases) auto

subsection \<open>The outcomes of POST\<close>

lemma POST_not_json: "POST s env None = catch_POST (Error ''Unexpected end of JSON input'') s"
  by (simp add: POST_def)

lemma POST_invalid:
  "\<not> array_includes validJobTypes (get_property body ''jobType'') \<Longrightarrow> body \<noteq> JNull \<Longrightarrow>
   POST s env (Some body) =
     (BadRequest ''Invalid job type. Must be one of: email, notification, report'', s)"
  by (simp add: POST_def)

lemma POST_null: "\<exists>m. POST s env (Some JNull) = catch_POST (Error m) s"
  by (simp add: POST_def) blast

lemma POST_db_down:
  "array_includes validJobTypes (get_property body ''jobType'') \<Longrightarrow> insert_now env = Inl m \<Longrightarrow>
   POST s env (Some body) = catch_POST (Error m) s"
  by (auto simp: POST_def valid_truthy)

lemma POST_duplicate:
  "array_includes validJobTypes (get_property body ''jobType'') \<Longrightarrow> insert_now env = Inr now \<Longrightarrow>
   randomUUID env \<in> set (map row_id (jobs s)) \<Longrightarrow>
   \<exists>m. POST s env (Some body) = catch_POST (Error m) s"
  by (auto simp: POST_def valid_truthy sql_insert_job_def)

lemma POST_broker_down:
  "array_includes validJobTypes (get_property body ''jobType'') \<Longrightarrow> insert_now env = Inr now \<Longrightarrow>
   randomUUID env \<notin> set (map row_id (jobs s)) \<Longrightarrow> queue_add env = Inl m \<Longrightarrow>
   POST s env (Some body) =
     catch_POST (Error m) (s\<lparr>jobs := jobs s @ [new_row env body now]\<rparr>)"
  by (auto simp: POST_def valid_truthy valid_check sql_insert_job_def publishEmailJob_def
      publishJob_def new_row_def Let_def)

lemma POST_created:
  "array_includes validJobTypes (get_property body ''jobType'') \<Longrightarrow> insert_now env = Inr now \<Longrightarrow>
   randomUUID env \<notin> set (map row_id (jobs s)) \<Longrightarrow> queue_add env = Inr bid \<Longrightarrow>
   POST s env (Some body) =
     (Created (randomUUID env),
      s\<lparr>jobs := jobs s @ [new_row env body now],
        queues := (queues s)(''email'' := queues s ''email'' @ [new_job env body bid])\<rparr>)"
  by (auto simp: POST_def valid_truthy valid_check sql_insert_job_def publishEmailJob_def
      publishJob_def new_row_def new_job_def Let_def delay_of_def attempts_or_default_def
      backoff_or_default_def)

text \<open>Every run of POST is one of the cases above.\<close>

lemma POST_cases:
  obtains (failed) m where "POST s env rq = catch_POST (Error m) s"
  | (invalid) body where "rq = Some body"
      "\<not> array_includes validJobTypes (get_property body ''jobType'')"
      "POST s env rq = (BadRequest ''Invalid job type. Must be one of: email, notification, report'', s)"
  | (orphan_row) body now m where "rq = Some body"
      "array_includes validJobTypes (get_property body ''jobType'')"
      "insert_now env = Inr now" "randomUUID env \<notin> set (map row_id (jobs s))"
      "queue_add env = Inl m"
      "POST s env rq = catch_POST (Error m) (s\<lparr>jobs := jobs s @ [new_row env body now]\<rparr>)"
  | (created) body now bid where "rq = Some body"
      "array_includes validJobTypes (get_property body ''jobType'')"
      "insert_now env = Inr now" "randomUUID env \<notin> set (map row_id (jobs s))"
      "queue_add env = Inr bid"
      "POST s env rq = (Created (randomUUID env),
         s\<lparr>jobs := jobs s @ [new_row env body now],
           queues := (queues s)(''email'' := queues s ''email'' @ [new_job env body bid])\<rparr>)"
proof (cases rq)
  case None
  then show ?thesis using failed POST_not_json by blast
next
  case (Some body)
  show ?thesis
  proof (cases "array_includes validJobTypes (get_property body ''jobType'')")
    case False
    show ?thesis
    proof (cases "body = JNull")
      case True
      then show ?thesis using failed POST_null Some by blast
    next
      case nn: False
      then show ?thesis using invalid Some False POST_invalid by blast
    qed
  next
    case True
    show ?thesis
    proof (cases "insert_now env")
      case (Inl m)
      then show ?thesis using failed POST_db_down True Some by blast
    next
      case (Inr now)
      show ?thesis
      proof (cases "randomUUID env \<in> set (map row_id (jobs s))")
        case dup: True
        then show ?thesis using failed POST_duplicate [OF True Inr dup] Some by blast
      next
        case fresh: False
        show ?thesis
        proof (cases "queue_add env")
          case (Inl m)
          then show ?thesis using orphan_row Some True Inr fresh POST_broker_down by blast
        next
          case bid: (Inr bid)
          then show ?thesis using created Some True Inr fresh POST_created by blast
        qed
      qed
    qed
  qed
qed


subsection \<open>The statements of the processor, row by row\<close>

lemma length_sql_update_jobs [simp]: "length (sql_update_jobs f jid now tbl) = length tbl"
  by (simp add: sql_update_jobs_def)

lemma nth_sql_update_jobs:
  "i < length tbl \<Longrightarrow>
   sql_update_jobs f jid now tbl ! i =
     (if row_id (tbl ! i) = jid then (f (tbl ! i))\<lparr>updated_at := now\<rparr> else tbl ! i)"
  by (simp add: sql_update_jobs_def update_updated_at_column_def)

lemma length_update_processing [simp]: "length (update_processing jid now tbl) = length tbl"
  by (simp add: update_processing_def)

lemma length_update_completed [simp]: "length (update_completed jid now tbl) = length tbl"
  by (simp add: update_completed_def)

lemma length_update_failed [simp]: "length (update_failed m jid now tbl) = length tbl"
  by (simp add: update_failed_def)

lemma nth_update_processing:
  "i < length tbl \<Longrightarrow>
   update_processing jid now tbl ! i =
     (if row_id (tbl ! i) = jid then (tbl ! i)\<lparr>status := Processing, updated_at := now\<rparr>
      else tbl ! i)"
  by (simp add: update_processing_def nth_sql_update_jobs)

lemma nth_update_completed:
  "i < length tbl \<Longrightarrow>
   update_completed jid now tbl ! i =
     (if row_id (tbl ! i) = jid
      then (tbl ! i)\<lparr>status := Completed, completed_at := Some now, updated_at := now\<rparr>
      else tbl ! i)"
  by (simp add: update_completed_def nth_sql_update_jobs)

lemma nth_update_failed:
  "i < length tbl \<Longrightarrow>
   update_failed m jid now tbl ! i =
     (if row_id (tbl ! i) = jid
      then (tbl ! i)\<lparr>status := Failed, error_message := Some m, updated_at := now\<rparr>
      else tbl ! i)"
  by (simp add: update_failed_def nth_sql_update_jobs)

subsection \<open>The outcomes of the processor\<close>

lemma processEmailJob_db_down:
  "processing_now env = Inl m \<Longrightarrow>
   processEmailJob s env job = (Inl (Error m), log (ProcessingEmailJob (bull_id job)) s)"
  by (simp add: processEmailJob_def)

lemma processEmailJob_completed:
  "processing_now env = Inr t1 \<Longrightarrow> completed_now env = Inr t2 \<Longrightarrow>
   processEmailJob s env job =
     (Inr (),
      s\<lparr>jobs := update_completed (jobId (bull_data job)) t2
                  (update_processing (jobId (bull_data job)) t1 (jobs s)),
        console := console s @
          [ProcessingEmailJob (bull_id job),
           SendingEmail (jobId (bull_data job)) (jobData (bull_data job)),
           EmailJobCompleted (jobId (bull_data job))]\<rparr>)"
  by (simp add: processEmailJob_def log_def Let_def)

lemma processEmailJob_failed:
  "processing_now env = Inr t1 \<Longrightarrow> completed_now env = Inl m \<Longrightarrow> failed_now env = Inr t3 \<Longrightarrow>
   processEmailJob s env job =
     (Inl (Error m),
      s\<lparr>jobs := update_failed m (jobId (bull_data job)) t3
                  (update_processing (jobId (bull_data job)) t1 (jobs s)),
        console := console s @
          [ProcessingEmailJob (bull_id job),
           SendingEmail (jobId (bull_data job)) (jobData (bull_data job)),
           EmailJobFailed (jobId (bull_data job)) m]\<rparr>)"
  by (simp add: processEmailJob_def log_def Let_def)

lemma processEmailJob_stuck:
  "processing_now env = Inr t1 \<Longrightarrow> completed_now env = Inl m \<Longrightarrow> failed_now env = Inl m' \<Longrightarrow>
   processEmailJob s env job =
     (Inl (Error m'),
      s\<lparr>jobs := update_processing (jobId (bull_data job)) t1 (jobs s),
        console := console s @
          [ProcessingEmailJob (bull_id job),
           SendingEmail (jobId (bull_data job)) (jobData (bull_data job)),
           EmailJobFailed (jobId (bull_data job)) m]\<rparr>)"
  by (simp add: processEmailJob_def log_def Let_def)

lemma processEmailJob_cases:
  obtains (db_down) m where "processing_now env = Inl m"
  | (completed) t1 t2 where "processing_now env = Inr t1" "completed_now env = Inr t2"
  | (failed) t1 m t3 where "processing_now env = Inr t1" "completed_now env = Inl m"
      "failed_now env = Inr t3"
  | (stuck) t1 m m' where "processing_now env = Inr t1" "completed_now env = Inl m"
      "failed_now env = Inl m'"
  by (cases "processing_now env"; cases "completed_now env"; cases "failed_now env") auto

subsection \<open>The worker around the processor\<close>

lemma fst_emailWorker [simp]: "fst (emailWorker s env job) = fst (processEmailJob s env job)"
  by (simp add: emailWorker_def split: prod.splits sum.splits)

lemma jobs_emailWorker [simp]:
  "jobs (snd (emailWorker s env job)) = jobs (snd (processEmailJob s env job))"
  by (simp add: emailWorker_def log_def split: prod.splits sum.splits)

lemma queues_emailWorker [simp]:
  "queues (snd (emailWorker s env job)) = queues (snd (processEmailJob s env job))"
  by (simp add: emailWorker_def log_def split: prod.splits sum.splits)

lemma handler_runs_emailWorker [simp]:
  "handler_runs jid (snd (emailWorker s env job)) = handler_runs jid (snd (processEmailJob s env job))"
  by (simp add: emailWorker_def log_def handler_runs_def split: prod.splits sum.splits)

subsection \<open>What each handler leaves alone\<close>

lemma ids_catch_POST [simp]: "ids (snd (catch_POST e s)) = ids s"
  by (simp add: catch_POST_def log_def ids_def)

lemma jobs_catch_POST [simp]: "jobs (snd (catch_POST e s)) = jobs s"
  by (simp add: catch_POST_def log_def)

lemma queues_catch_POST [simp]: "queues (snd (catch_POST e s)) = queues s"
  by (simp add: catch_POST_def log_def)

lemma fst_catch_POST [simp]: "fst (catch_POST e s) = ServerError ''Failed to create job'' (message e)"
  by (simp add: catch_POST_def)

lemma jobs_GET [simp]: "jobs (snd (GET s db_error ps)) = jobs s"
  by (simp add: GET_def catch_GET_def log_def Let_def split: option.splits list.splits sum.splits)

lemma queues_GET [simp]: "queues (snd (GET s db_error ps)) = queues s"
  by (simp add: GET_def catch_GET_def log_def Let_def split: option.splits list.splits sum.splits)

lemma queues_processEmailJob [simp]: "queues (snd (processEmailJob s env job)) = queues s"
  by (cases env rule: processEmailJob_cases)
     (simp_all add: processEmailJob_db_down processEmailJob_completed processEmailJob_failed
        processEmailJob_stuck log_def)

lemma length_jobs_processEmailJob [simp]:
  "length (jobs (snd (processEmailJob s env job))) = length (jobs s)"
  by (cases env rule: processEmailJob_cases)
     (simp_all add: processEmailJob_db_down processEmailJob_completed processEmailJob_failed
        processEmailJob_stuck log_def)

subsection \<open>Identifiers along a run\<close>

lemma map_row_id_sql_update_jobs:
  "(\<And>r. row_id (f r) = row_id r) \<Longrightarrow> map row_id (sql_update_jobs f jid now tbl) = map row_id tbl"
  by (induction tbl) (simp_all add: sql_update_jobs_def update_updated_at_column_def)

lemma map_row_id_update_processing [simp]:
  "map row_id (update_processing jid now tbl) = map row_id tbl"
  by (simp add: update_processing_def map_row_id_sql_update_jobs)

lemma map_row_id_update_completed [simp]:
  "map row_id (update_completed jid now tbl) = map row_id tbl"
  by (simp add: update_completed_def map_row_id_sql_update_jobs)

lemma map_row_id_update_failed [simp]:
  "map row_id (update_failed m jid now tbl) = map row_id tbl"
  by (simp add: update_failed_def map_row_id_sql_update_jobs)

lemma ids_processEmailJob [simp]: "ids (snd (processEmailJob s env job)) = ids s"
  by (cases env rule: processEmailJob_cases)
     (simp_all add: processEmailJob_db_down processEmailJob_completed processEmailJob_failed
        processEmailJob_stuck log_def ids_def)

lemma ids_emailWorker [simp]: "ids (snd (emailWorker s env job)) = ids s"
  using ids_processEmailJob [of s env job] by (simp add: ids_def)

lemma ids_GET [simp]: "ids (snd (GET s db_error ps)) = ids s"
  by (simp add: ids_def)

lemma POST_ids:
  "ids s \<subseteq> ids (snd (POST s env rq)) \<and>
   set (returned_id (fst (POST s env rq))) \<subseteq> ids (snd (POST s env rq)) \<and>
   set (returned_id (fst (POST s env rq))) \<inter> ids s = {}"
  by (rule POST_cases [of s env rq]) (auto simp: ids_def new_row_def catch_POST_def log_def)

lemma after_ids:
  "ids s \<subseteq> ids (after s c) \<and> set (returned s c) \<subseteq> ids (after s c) \<and>
   set (returned s c) \<inter> ids s = {}"
  using POST_ids by (cases c) simp_all

lemma distinct_returned: "distinct (returned s c)"
proof (cases c)
  case (CallPOST env rq)
  then show ?thesis by (cases "fst (POST s env rq)") simp_all
qed simp_all

lemma run_Cons [simp]: "run s (c # cs) = run (after s c) cs"
  by (simp add: run_def)

lemma run_Nil [simp]: "run s [] = s"
  by (simp add: run_def)

lemma run_ids: "ids s \<subseteq> ids (run s cs)"
proof (induction cs arbitrary: s)
  case Nil
  show ?case by simp
next
  case (Cons c cs)
  have "ids s \<subseteq> ids (after s c)" using after_ids by blast
  also have "\<dots> \<subseteq> ids (run (after s c) cs)" by (rule Cons.IH)
  finally show ?case by simp
qed

lemma returned_ids_in_store: "set (returned_ids s cs) \<subseteq> ids (run s cs)"
proof (induction cs arbitrary: s)
  case Nil
  show ?case by simp
next
  case (Cons c cs)
  have "set (returned s c) \<subseteq> ids (after s c)" using after_ids by blast
  also have "\<dots> \<subseteq> ids (run (after s c) cs)" by (rule run_ids)
  finally have a: "set (returned s c) \<subseteq> ids (run (after s c) cs)" .
  show ?case using a Cons.IH [of "after s c"] by simp
qed

lemma returned_ids_fresh: "set (returned_ids s cs) \<inter> ids s = {}"
proof (induction cs arbitrary: s)
  case Nil
  show ?case by simp
next
  case (Cons c cs)
  have a: "set (returned s c) \<inter> ids s = {}" using after_ids by blast
  have b: "ids s \<subseteq> ids (after s c)" using after_ids by blast
  have c: "set (returned_ids (after s c) cs) \<inter> ids (after s c) = {}" by (rule Cons.IH)
  show ?case using a b c by auto
qed

lemma distinct_returned_ids: "distinct (returned_ids s cs)"
proof (induction cs arbitrary: s)
  case Nil
  show ?case by simp
next
  case (Cons c cs)
  have a: "set (returned s c) \<subseteq> ids (after s c)" using after_ids by blast
  have b: "set (returned_ids (after s c) cs) \<inter> ids (after s c) = {}"
    by (rule returned_ids_fresh)
  show ?case using a b Cons.IH [of "after s c"] distinct_returned [of s c] by auto
qed

subsection \<open>Queues along a run\<close>

lemma POST_other_queues: "q \<noteq> ''email'' \<Longrightarrow> queues (snd (POST s env rq)) q = queues s q"
  by (rule POST_cases [of s env rq]) (simp_all add: catch_POST_def log_def)

lemma after_other_queues: "q \<noteq> ''email'' \<Longrightarrow> queues (after s c) q = queues s q"
  by (cases c) (simp_all add: POST_other_queues)

lemma run_other_queues: "q \<noteq> ''email'' \<Longrightarrow> queues (run s cs) q = queues s q"
  by (induction cs arbitrary: s) (simp_all add: after_other_queues)


subsection \<open>Reading a job back\<close>

lemma GET_by_id:
  "jid \<noteq> [] \<Longrightarrow> sql_select_by_id (jobs s) jid = r # rs \<Longrightarrow>
   GET s None [(''jobId'', jid)] = (JobFound r, s)"
  by (simp add: GET_def given_def Let_def)

lemma select_new_row:
  "jid \<notin> set (map row_id tbl) \<Longrightarrow> row_id r = jid \<Longrightarrow> sql_select_by_id (tbl @ [r]) jid = [r]"
  by (induction tbl) (auto simp: sql_select_by_id_def)

subsection \<open>Row first, message second\<close>

lemma POST_no_row_no_message:
  "jobs (snd (POST s env rq)) = jobs s \<Longrightarrow> queues (snd (POST s env rq)) = queues s"
  by (rule POST_cases [of s env rq]) (simp_all add: catch_POST_def log_def)

lemma POST_no_orphan:
  "job \<in> set (queues (snd (POST s env rq)) q) \<Longrightarrow>
   job \<in> set (queues s q) \<or> jobId (bull_data job) \<in> ids (snd (POST s env rq))"
  by (rule POST_cases [of s env rq])
     (auto simp: catch_POST_def log_def ids_def new_row_def new_job_def split: if_splits)

lemma POST_insert_fails:
  "isl (insert_now env) \<or> randomUUID env \<in> ids s \<Longrightarrow>
   jobs (snd (POST s env rq)) = jobs s \<and> queues (snd (POST s env rq)) = queues s"
  by (rule POST_cases [of s env rq]) (auto simp: catch_POST_def log_def ids_def)

subsection \<open>Executions of the handler\<close>

lemma handler_runs_append:
  "handler_runs jid (s\<lparr>jobs := tbl, console := console s @ ls\<rparr>) =
     handler_runs jid s + length (filter (is_sending jid) ls)"
  by (simp add: handler_runs_def)

lemma handler_runs_processEmailJob:
  "handler_runs (jobId (bull_data job)) (snd (processEmailJob s env job)) =
     handler_runs (jobId (bull_data job)) s + (if isl (processing_now env) then 0 else 1)"
  by (cases env rule: processEmailJob_cases)
     (simp_all add: processEmailJob_db_down processEmailJob_completed processEmailJob_failed
        processEmailJob_stuck handler_runs_append, simp add: handler_runs_def log_def)

lemma handler_runs_deliveries:
  "\<forall>env \<in> set envs. \<not> isl (processing_now env) \<Longrightarrow>
   handler_runs (jobId (bull_data job)) (run s (map (\<lambda>env. CallWorker env job) envs)) =
     handler_runs (jobId (bull_data job)) s + length envs"
proof (induction envs arbitrary: s)
  case Nil
  show ?case by simp
next
  case (Cons env envs)
  have "handler_runs (jobId (bull_data job)) (after s (CallWorker env job)) =
          handler_runs (jobId (bull_data job)) s + 1"
    using Cons.prems by (simp add: handler_runs_processEmailJob)
  then show ?case using Cons.IH [of "after s (CallWorker env job)"] Cons.prems by simp
qed

subsection \<open>The rows after a run of the processor\<close>

lemma emailWorker_resolves:
  "fst (emailWorker s env job) = Inr () \<Longrightarrow>
   \<exists>t1 t2. processing_now env = Inr t1 \<and> completed_now env = Inr t2 \<and>
     jobs (snd (emailWorker s env job)) =
       update_completed (jobId (bull_data job)) t2
         (update_processing (jobId (bull_data job)) t1 (jobs s))"
  by (cases env rule: processEmailJob_cases)
     (simp_all add: processEmailJob_db_down processEmailJob_completed
        processEmailJob_failed processEmailJob_stuck)

lemma emailWorker_rejects:
  "isl (fst (emailWorker s env job)) \<Longrightarrow>
   jobs (snd (emailWorker s env job)) = jobs s \<or>
   (\<exists>t1. jobs (snd (emailWorker s env job)) =
       update_processing (jobId (bull_data job)) t1 (jobs s)) \<or>
   (\<exists>t1 t3 m. jobs (snd (emailWorker s env job)) =
       update_failed m (jobId (bull_data job)) t3
         (update_processing (jobId (bull_data job)) t1 (jobs s)))"
  by (cases env rule: processEmailJob_cases)
     (simp_all add: processEmailJob_db_down processEmailJob_completed
        processEmailJob_failed processEmailJob_stuck log_def, blast+)

lemma emailWorker_named_row:
  assumes "i < length (jobs s)" and "row_id (jobs s ! i) = jobId (bull_data job)"
    and "\<not> isl (processing_now env)"
  shows "status (jobs (snd (emailWorker s env job)) ! i) =
           (if \<not> isl (completed_now env) then Completed
            else if \<not> isl (failed_now env) then Failed else Processing)"
  using assms
  by (cases env rule: processEmailJob_cases)
     (simp_all add: processEmailJob_db_down processEmailJob_completed
        processEmailJob_failed processEmailJob_stuck
        nth_update_processing nth_update_completed nth_update_failed)

subsection \<open>What a run keeps of a row\<close>

lemma POST_keeps_rows:
  "i < length (jobs s) \<Longrightarrow>
   i < length (jobs (snd (POST s env rq))) \<and> jobs (snd (POST s env rq)) ! i = jobs s ! i"
  by (rule POST_cases [of s env rq]) (simp_all add: catch_POST_def log_def nth_append)

lemma emailWorker_keeps_core:
  assumes "i < length (jobs s)"
  shows "same_job (jobs s ! i) (jobs (snd (emailWorker s env job)) ! i)"
  using assms
  by (cases env rule: processEmailJob_cases)
     (simp_all add: processEmailJob_db_down processEmailJob_completed
        processEmailJob_failed processEmailJob_stuck log_def same_job_def
        nth_update_processing nth_update_completed nth_update_failed)

lemma emailWorker_keeps_others:
  assumes "i < length (jobs s)" and "row_id (jobs s ! i) \<noteq> jobId (bull_data job)"
  shows "jobs (snd (emailWorker s env job)) ! i = jobs s ! i"
  using assms
  by (cases env rule: processEmailJob_cases)
     (simp_all add: processEmailJob_db_down processEmailJob_completed
        processEmailJob_failed processEmailJob_stuck log_def
        nth_update_processing nth_update_completed nth_update_failed)

lemma same_job_refl [simp]: "same_job r r"
  by (simp add: same_job_def)

lemma same_job_trans: "same_job a b \<Longrightarrow> same_job b c \<Longrightarrow> same_job a c"
  by (simp add: same_job_def)

lemma after_keeps_core:
  assumes "i < length (jobs s)"
  shows "i < length (jobs (after s c)) \<and> same_job (jobs s ! i) (jobs (after s c) ! i)"
proof (cases c)
  case (CallPOST env rq)
  then show ?thesis using POST_keeps_rows [OF assms, of env rq] by simp
next
  case (CallGET e ps)
  then show ?thesis using assms by simp
next
  case (CallWorker env job)
  then show ?thesis using assms emailWorker_keeps_core [OF assms, of env job]
    by simp
qed

lemma run_keeps_core:
  "i < length (jobs s) \<Longrightarrow>
   i < length (jobs (run s cs)) \<and> same_job (jobs s ! i) (jobs (run s cs) ! i)"
proof (induction cs arbitrary: s)
  case Nil
  then show ?case by simp
next
  case (Cons c cs)
  have a: "i < length (jobs (after s c)) \<and> same_job (jobs s ! i) (jobs (after s c) ! i)"
    using Cons.prems by (rule after_keeps_core)
  have b: "i < length (jobs (run (after s c) cs)) \<and>
      same_job (jobs (after s c) ! i) (jobs (run (after s c) cs) ! i)"
    using a Cons.IH [of "after s c"] by blast
  show ?case using a b same_job_trans by auto
qed

subsection \<open>The ordering of a list of jobs\<close>

lemma set_insert_desc [simp]: "set (insert_desc r xs) = insert r (set xs)"
  by (induction xs) auto

lemma length_insert_desc [simp]: "length (insert_desc r xs) = Suc (length xs)"
  by (induction xs) auto

lemma set_order_by_created_at_desc [simp]: "set (order_by_created_at_desc xs) = set xs"
  by (induction xs) auto

lemma length_order_by_created_at_desc [simp]: "length (order_by_created_at_desc xs) = length xs"
  by (induction xs) auto










subsection \<open>The concrete inputs\<close>

lemma email_body_valid: "array_includes validJobTypes (get_property email_body ''jobType'')"
  by (simp add: email_body_def validJobTypes_def)

lemma report_body_valid: "array_includes validJobTypes (get_property report_body ''jobType'')"
  by (simp add: report_body_def validJobTypes_def)

lemma uuid_distinct: "uuid1 \<noteq> uuid2"
  by (simp add: uuid1_def uuid2_def)

lemma POST_state0: "POST state0 env1 (Some email_body) = (Created uuid1, state1)"
proof -
  have "POST state0 env1 (Some email_body) =
    (Created (randomUUID env1),
     state0\<lparr>jobs := jobs state0 @ [new_row env1 email_body 100],
       queues := (queues state0)(''email'' := queues state0 ''email'' @ [new_job env1 email_body ''1''])\<rparr>)"
    by (rule POST_created [OF email_body_valid]) (simp_all add: env1_def state0_def)
  then show ?thesis
    by (simp add: env1_def state0_def state1_def row1_def job1_def new_row_def new_job_def
        email_body_def or_empty_object_def)
qed

lemma POST_state1: "POST state1 env2 (Some report_body) = (Created uuid2, state2)"
proof -
  have "POST state1 env2 (Some report_body) =
    (Created (randomUUID env2),
     state1\<lparr>jobs := jobs state1 @ [new_row env2 report_body 200],
       queues := (queues state1)(''email'' := queues state1 ''email'' @ [new_job env2 report_body ''2''])\<rparr>)"
    by (rule POST_created [OF report_body_valid])
       (simp_all add: env2_def state1_def row1_def uuid_distinct [symmetric])
  then show ?thesis
    by (simp add: env2_def state1_def state2_def row2_def job2_def new_row_def new_job_def
        report_body_def or_empty_object_def)
qed

lemma worker_state1: "emailWorker state1 (worker_ok 150) job1 = (Inr (), state1_done)"
  by (simp add: emailWorker_def processEmailJob_def worker_ok_def state1_def state1_done_def
      row1_done_def row1_def job1_def log_def Let_def update_processing_def update_completed_def
      sql_update_jobs_def update_updated_at_column_def)

lemma worker_state1_again:
  "emailWorker state1_done (worker_ok 300) job1 =
     (Inr (), state1_done\<lparr>jobs := [row1_done\<lparr>updated_at := 301, completed_at := Some 301\<rparr>],
                console := console state1_done @
                  [ProcessingEmailJob ''1'',
                   SendingEmail uuid1 (Some (JObj [(''to'', JStr ''a@b.com'')])),
                   EmailJobCompleted uuid1, WorkerJobCompleted ''1'']\<rparr>)"
  by (simp add: emailWorker_def processEmailJob_def worker_ok_def state1_done_def
      row1_done_def row1_def job1_def log_def Let_def update_processing_def update_completed_def
      sql_update_jobs_def update_updated_at_column_def)

lemma worker_state1_db_lost:
  "emailWorker state1_done (worker_db_lost 300) job1 =
     (Inl (Error ''Connection terminated unexpectedly''),
      state1_done\<lparr>jobs := [row1_done\<lparr>status := Failed, updated_at := 301,
                       error_message := Some ''Connection terminated unexpectedly''\<rparr>],
                console := console state1_done @
                  [ProcessingEmailJob ''1'',
                   SendingEmail uuid1 (Some (JObj [(''to'', JStr ''a@b.com'')])),
                   EmailJobFailed uuid1 ''Connection terminated unexpectedly'',
                   WorkerJobFailed ''1'' ''Connection terminated unexpectedly'']\<rparr>)"
  by (simp add: emailWorker_def processEmailJob_def worker_db_lost_def state1_done_def
      row1_done_def row1_def job1_def log_def Let_def update_processing_def update_failed_def
      sql_update_jobs_def update_updated_at_column_def)

section \<open>The claims\<close>

text \<open>
  C5. A submission whose job type is not one of the registered types is refused with
  the validation error (status 400): no row is written and nothing is put on a queue;
  the state is the one before the call. (A body that is the JSON \<open>null\<close> has no job
  type to read; it ends in the \<open>catch\<close> block, and writes no row and no message
  either.)
\<close>

theorem unknown_type_rejected:
  assumes "\<not> array_includes validJobTypes (get_property body ''jobType'')"
  shows "jobs (snd (POST s env (Some body))) = jobs s \<and>
         queues (snd (POST s env (Some body))) = queues s \<and>
         (body \<noteq> JNull \<longrightarrow>
            POST s env (Some body) =
              (BadRequest ''Invalid job type. Must be one of: email, notification, report'', s))"
proof (cases "body = JNull")
  case True
  then show ?thesis using POST_null [of s env] by auto
next
  case False
  then show ?thesis using POST_invalid [OF assms False] by simp
qed

theorem unknown_type_rejected_witness:
  "\<not> array_includes validJobTypes (get_property sms_body ''jobType'') \<and>
   sms_body \<noteq> JNull \<and>
   jobs (snd (POST state1 env2 (Some sms_body))) = jobs state1 \<and>
   queues (snd (POST state1 env2 (Some sms_body))) = queues state1 \<and>
   POST state1 env2 (Some sms_body) =
     (BadRequest ''Invalid job type. Must be one of: email, notification, report'', state1)"
proof -
  have h: "\<not> array_includes validJobTypes (get_property sms_body ''jobType'')"
    by (simp add: sms_body_def validJobTypes_def)
  have n: "sms_body \<noteq> JNull" by (simp add: sms_body_def)
  show ?thesis using unknown_type_rejected [OF h, of state1 env2] h n by simp
qed

text \<open>
  C1. A submission with a registered job type, made after any run of the system, gets
  back a job id whenever the INSERT and the queue accept it and the UUID drawn is not
  in the table. Whenever \<open>POST\<close> answers with a job id, that id was returned by no
  earlier call and named no row; and reading the job back at once finds its row, with
  status \<open>pending\<close>.
\<close>

theorem submit_returns_fresh_pending_job:
  assumes valid: "array_includes validJobTypes (get_property body ''jobType'')"
    and uuid: "randomUUID env \<noteq> []"
    and history: "s = run s0 cs"
  shows "(\<not> isl (insert_now env) \<and> \<not> isl (queue_add env) \<and> randomUUID env \<notin> ids s \<longrightarrow>
            fst (POST s env (Some body)) = Created (randomUUID env)) \<and>
         (\<forall>jid. fst (POST s env (Some body)) = Created jid \<longrightarrow>
            jid \<notin> set (returned_ids s0 cs) \<and> jid \<notin> ids s \<and>
            (\<exists>r. GET (snd (POST s env (Some body))) None [(''jobId'', jid)] =
                    (JobFound r, snd (POST s env (Some body))) \<and>
                 row_id r = jid \<and> status r = Pending))"
proof (intro conjI impI allI)
  assume ok: "\<not> isl (insert_now env) \<and> \<not> isl (queue_add env) \<and> randomUUID env \<notin> ids s"
  then obtain now bid where "insert_now env = Inr now" "queue_add env = Inr bid"
    by (cases "insert_now env"; cases "queue_add env") auto
  then show "fst (POST s env (Some body)) = Created (randomUUID env)"
    using POST_created [OF valid, of env now s bid] ok by (simp add: ids_def)
next
  fix jid
  assume created: "fst (POST s env (Some body)) = Created jid"
  have known: "set (returned_ids s0 cs) \<subseteq> ids s"
    using returned_ids_in_store [of s0 cs] history by simp
  have fresh: "jid \<notin> ids s"
    using POST_ids [of s env "Some body"] created by auto
  show "jid \<notin> set (returned_ids s0 cs)" using known fresh by blast
  show "jid \<notin> ids s" by (rule fresh)
  show "\<exists>r. GET (snd (POST s env (Some body))) None [(''jobId'', jid)] =
              (JobFound r, snd (POST s env (Some body))) \<and>
            row_id r = jid \<and> status r = Pending"
  proof (rule POST_cases [of s env "Some body"])
    fix m assume "POST s env (Some body) = catch_POST (Error m) s"
    then show ?thesis using created by simp
  next
    fix b assume "Some body = Some b"
      "\<not> array_includes validJobTypes (get_property b ''jobType'')"
    then show ?thesis using valid by simp
  next
    fix b now m
    assume "POST s env (Some body) =
      catch_POST (Error m) (s\<lparr>jobs := jobs s @ [new_row env b now]\<rparr>)"
    then show ?thesis using created by simp
  next
    fix b now bid
    assume b: "Some body = Some b"
      and new: "randomUUID env \<notin> set (map row_id (jobs s))"
      and post: "POST s env (Some body) =
        (Created (randomUUID env),
         s\<lparr>jobs := jobs s @ [new_row env b now],
           queues := (queues s)(''email'' := queues s ''email'' @ [new_job env b bid])\<rparr>)"
    have jid: "jid = randomUUID env" using created post by simp
    have sel: "sql_select_by_id (jobs (snd (POST s env (Some body)))) jid = [new_row env b now]"
      using post jid select_new_row [OF new, of "new_row env b now"] by (simp add: new_row_def)
    have "GET (snd (POST s env (Some body))) None [(''jobId'', jid)] =
            (JobFound (new_row env b now), snd (POST s env (Some body)))"
      using GET_by_id [of jid "snd (POST s env (Some body))" "new_row env b now" "[]"] sel uuid jid
      by simp
    then show ?thesis using jid by (auto simp: new_row_def)
  qed
qed

theorem submit_returns_fresh_pending_job_witness:
  "array_includes validJobTypes (get_property report_body ''jobType'') \<and>
   randomUUID env2 \<noteq> [] \<and>
   state1 = run state0 [CallPOST env1 (Some email_body)] \<and>
   returned_ids state0 [CallPOST env1 (Some email_body)] = [uuid1] \<and>
   fst (POST state1 env2 (Some report_body)) = Created uuid2 \<and>
   uuid2 \<notin> set (returned_ids state0 [CallPOST env1 (Some email_body)]) \<and>
   (\<exists>r. GET state2 None [(''jobId'', uuid2)] = (JobFound r, state2) \<and>
        row_id r = uuid2 \<and> status r = Pending)"
proof -
  have h: "state1 = run state0 [CallPOST env1 (Some email_body)]"
    by (simp add: POST_state0)
  have u: "randomUUID env2 \<noteq> []" by (simp add: env2_def uuid2_def)
  show ?thesis
    using submit_returns_fresh_pending_job [OF report_body_valid u h] h u report_body_valid
    by (simp add: POST_state1 POST_state0)
qed

text \<open>
  C6. In every run of \<open>POST\<close> the row is written before the message is added: a
  run that leaves the table as it was leaves the queues as they were; in particular,
  when the INSERT fails (the database refuses it, or the id is already a key), nothing
  is added to a queue. Every message that a run adds names a row of the table. And when
  the broker refuses the message, the row is already there.
\<close>

theorem store_write_before_enqueue:
  "(jobs (snd (POST s env rq)) = jobs s \<longrightarrow> queues (snd (POST s env rq)) = queues s) \<and>
   (isl (insert_now env) \<or> randomUUID env \<in> ids s \<longrightarrow>
      jobs (snd (POST s env rq)) = jobs s \<and> queues (snd (POST s env rq)) = queues s) \<and>
   (\<forall>q. \<forall>job \<in> set (queues (snd (POST s env rq)) q).
      job \<in> set (queues s q) \<or> jobId (bull_data job) \<in> ids (snd (POST s env rq))) \<and>
   (\<forall>body now m. rq = Some body \<and> array_includes validJobTypes (get_property body ''jobType'') \<and>
      insert_now env = Inr now \<and> randomUUID env \<notin> ids s \<and> queue_add env = Inl m \<longrightarrow>
      jobs (snd (POST s env rq)) = jobs s @ [new_row env body now] \<and>
      queues (snd (POST s env rq)) = queues s)"
proof (intro conjI allI ballI impI)
  assume "jobs (snd (POST s env rq)) = jobs s"
  then show "queues (snd (POST s env rq)) = queues s" by (rule POST_no_row_no_message)
next
  assume a: "isl (insert_now env) \<or> randomUUID env \<in> ids s"
  show "jobs (snd (POST s env rq)) = jobs s" using POST_insert_fails [OF a] by simp
  show "queues (snd (POST s env rq)) = queues s" using POST_insert_fails [OF a] by simp
next
  fix q job
  assume "job \<in> set (queues (snd (POST s env rq)) q)"
  then show "job \<in> set (queues s q) \<or> jobId (bull_data job) \<in> ids (snd (POST s env rq))"
    by (rule POST_no_orphan)
next
  fix body now m
  assume a: "rq = Some body \<and> array_includes validJobTypes (get_property body ''jobType'') \<and>
      insert_now env = Inr now \<and> randomUUID env \<notin> ids s \<and> queue_add env = Inl m"
  then have p: "POST s env rq = catch_POST (Error m) (s\<lparr>jobs := jobs s @ [new_row env body now]\<rparr>)"
    using POST_broker_down [of body env now s m] by (simp add: ids_def)
  show "jobs (snd (POST s env rq)) = jobs s @ [new_row env body now]" using p by simp
  show "queues (snd (POST s env rq)) = queues s" using p by simp
qed

theorem store_write_before_enqueue_witness:
  "isl (insert_now env_db_down) \<and>
   jobs (snd (POST state1 env_db_down (Some report_body))) = jobs state1 \<and>
   queues (snd (POST state1 env_db_down (Some report_body))) = queues state1 \<and>
   randomUUID env1 \<in> ids state1 \<and>
   queues (snd (POST state1 env1 (Some report_body))) = queues state1 \<and>
   job2 \<in> set (queues (snd (POST state1 env2 (Some report_body))) ''email'') \<and>
   job2 \<notin> set (queues state1 ''email'') \<and>
   jobId (bull_data job2) \<in> ids (snd (POST state1 env2 (Some report_body))) \<and>
   jobs (snd (POST state1 env_broker_down (Some report_body))) = [row1, row2] \<and>
   queues (snd (POST state1 env_broker_down (Some report_body))) = queues state1"
proof -
  have a: "isl (insert_now env_db_down)" by (simp add: env_db_down_def)
  have b: "randomUUID env1 \<in> ids state1" by (simp add: env1_def ids_def state1_def row1_def)
  have c: "job2 \<in> set (queues (snd (POST state1 env2 (Some report_body))) ''email'')"
    by (simp add: POST_state1 state2_def)
  have d: "job2 \<notin> set (queues state1 ''email'')"
    by (simp add: state1_def job1_def job2_def)
  have e: "array_includes validJobTypes (get_property report_body ''jobType'') \<and>
      insert_now env_broker_down = Inr 200 \<and> randomUUID env_broker_down \<notin> ids state1 \<and>
      queue_add env_broker_down = Inl ''connect ECONNREFUSED''"
    by (simp add: report_body_valid env_broker_down_def ids_def state1_def row1_def uuid_distinct [symmetric])
  have f: "new_row env_broker_down report_body 200 = row2"
    by (simp add: new_row_def env_broker_down_def report_body_def row2_def or_empty_object_def)
  show ?thesis
    using store_write_before_enqueue [of state1 env_db_down "Some report_body"]
      store_write_before_enqueue [of state1 env1 "Some report_body"]
      store_write_before_enqueue [of state1 env2 "Some report_body"]
      store_write_before_enqueue [of state1 env_broker_down "Some report_body"]
      a b c d e f
    by (auto simp: state1_def)
qed

text \<open>
  C10. Whatever the job type of an accepted submission, its message is added to the
  queue named \<open>email\<close>, the queue the worker consumes; no call of any run touches a
  queue of another name.
\<close>

theorem every_job_goes_to_the_email_queue:
  "(\<forall>q. q \<noteq> ''email'' \<longrightarrow> queues (run s cs) q = queues s q) \<and>
   (\<forall>jid. fst (POST s env rq) = Created jid \<longrightarrow>
      (\<exists>job body. queues (snd (POST s env rq)) ''email'' = queues s ''email'' @ [job] \<and>
         bull_name job = ''email'' \<and> jobId (bull_data job) = jid \<and>
         rq = Some body \<and>
         get_property body ''jobType'' = Some (JStr (jobType (bull_data job))) \<and>
         jobType (bull_data job) \<in> set validJobTypes)) \<and>
   emailWorker_queue = ''email''"
proof (intro conjI allI impI)
  fix q :: string assume "q \<noteq> ''email''"
  then show "queues (run s cs) q = queues s q" by (rule run_other_queues)
next
  fix jid
  assume created: "fst (POST s env rq) = Created jid"
  show "\<exists>job body. queues (snd (POST s env rq)) ''email'' = queues s ''email'' @ [job] \<and>
         bull_name job = ''email'' \<and> jobId (bull_data job) = jid \<and>
         rq = Some body \<and>
         get_property body ''jobType'' = Some (JStr (jobType (bull_data job))) \<and>
         jobType (bull_data job) \<in> set validJobTypes"
  proof (rule POST_cases [of s env rq])
    fix m assume "POST s env rq = catch_POST (Error m) s"
    then show ?thesis using created by simp
  next
    fix b assume "POST s env rq =
      (BadRequest ''Invalid job type. Must be one of: email, notification, report'', s)"
    then show ?thesis using created by simp
  next
    fix b now m
    assume "POST s env rq = catch_POST (Error m) (s\<lparr>jobs := jobs s @ [new_row env b now]\<rparr>)"
    then show ?thesis using created by simp
  next
    fix b now bid
    assume rq: "rq = Some b"
      and valid: "array_includes validJobTypes (get_property b ''jobType'')"
      and post: "POST s env rq =
        (Created (randomUUID env),
         s\<lparr>jobs := jobs s @ [new_row env b now],
           queues := (queues s)(''email'' := queues s ''email'' @ [new_job env b bid])\<rparr>)"
    have t: "get_property b ''jobType'' = Some (JStr (string_of (get_property b ''jobType'')))"
      using valid by (cases "(validJobTypes, get_property b ''jobType'')" rule: array_includes.cases) auto
    have "queues (snd (POST s env rq)) ''email'' = queues s ''email'' @ [new_job env b bid] \<and>
         bull_name (new_job env b bid) = ''email'' \<and> jobId (bull_data (new_job env b bid)) = jid \<and>
         rq = Some b \<and>
         get_property b ''jobType'' = Some (JStr (jobType (bull_data (new_job env b bid)))) \<and>
         jobType (bull_data (new_job env b bid)) \<in> set validJobTypes"
      using post created rq t valid_string [OF valid] by (simp add: new_job_def)
    then show ?thesis by blast
  qed
next
  show "emailWorker_queue = ''email''" by (simp add: emailWorker_queue_def)
qed

theorem every_job_goes_to_the_email_queue_witness:
  "''report'' \<noteq> ''email'' \<and>
   queues (run state0 [CallPOST env1 (Some email_body), CallPOST env2 (Some report_body)]) ''report'' = [] \<and>
   fst (POST state1 env2 (Some report_body)) = Created uuid2 \<and>
   (\<exists>job. queues (snd (POST state1 env2 (Some report_body))) ''email'' = queues state1 ''email'' @ [job] \<and>
      bull_name job = ''email'' \<and> jobId (bull_data job) = uuid2 \<and>
      jobType (bull_data job) = ''report'')"
proof -
  have a: "fst (POST state1 env2 (Some report_body)) = Created uuid2" by (simp add: POST_state1)
  have b: "get_property report_body ''jobType'' = Some (JStr ''report'')"
    by (simp add: report_body_def)
  have n: "''report'' \<noteq> ''email''" by simp
  have c: "queues (run state0 [CallPOST env1 (Some email_body), CallPOST env2 (Some report_body)]) ''report'' = []"
    using every_job_goes_to_the_email_queue
      [of state0 "[CallPOST env1 (Some email_body), CallPOST env2 (Some report_body)]"] n
    by (simp add: state0_def)
  have d: "\<exists>job body. queues (snd (POST state1 env2 (Some report_body))) ''email'' = queues state1 ''email'' @ [job] \<and>
         bull_name job = ''email'' \<and> jobId (bull_data job) = uuid2 \<and>
         Some report_body = Some body \<and>
         get_property body ''jobType'' = Some (JStr (jobType (bull_data job))) \<and>
         jobType (bull_data job) \<in> set validJobTypes"
    using every_job_goes_to_the_email_queue [of state1 "[]" env2 "Some report_body"] a by blast
  then have e: "\<exists>job. queues (snd (POST state1 env2 (Some report_body))) ''email'' = queues state1 ''email'' @ [job] \<and>
      bull_name job = ''email'' \<and> jobId (bull_data job) = uuid2 \<and>
      jobType (bull_data job) = ''report''"
    using b by auto
  show ?thesis using n c a e by blast
qed

text \<open>
  C2. As stated, the claim fails: the code has no table of transitions. The first row
  below is \<open>completed\<close>; the UPDATE to \<open>processing\<close>, a transition outside the
  four of the claim, is applied, and the processor that issues it ends without an error.
\<close>

theorem invalid_transition_is_applied:
  "\<not> spec_transition Completed Processing \<and>
   status row1_done = Completed \<and>
   update_processing uuid1 300 [row1_done] = [row1_done\<lparr>status := Processing, updated_at := 300\<rparr>] \<and>
   update_processing uuid1 300 [row1_done] \<noteq> [row1_done] \<and>
   fst (emailWorker state1_done (worker_ok 300) job1) = Inr ()"
  by (simp add: update_processing_def sql_update_jobs_def update_updated_at_column_def
      row1_done_def row1_def worker_state1_again)

text \<open>
  C2, amended. Every status UPDATE of the processor is applied whatever the current
  status of the row: a row with the given id gets the requested status
  (\<open>processing\<close>, \<open>completed\<close> or \<open>failed\<close>); every other row is left as it is, and
  the table keeps its length, so an id that names no row changes nothing.
\<close>

theorem status_updates_are_unconditional:
  assumes "i < length tbl"
  shows "(row_id (tbl ! i) = jid \<longrightarrow>
            status (update_processing jid now tbl ! i) = Processing \<and>
            status (update_completed jid now tbl ! i) = Completed \<and>
            status (update_failed m jid now tbl ! i) = Failed) \<and>
         (row_id (tbl ! i) \<noteq> jid \<longrightarrow>
            update_processing jid now tbl ! i = tbl ! i \<and>
            update_completed jid now tbl ! i = tbl ! i \<and>
            update_failed m jid now tbl ! i = tbl ! i) \<and>
         length (update_processing jid now tbl) = length tbl \<and>
         length (update_completed jid now tbl) = length tbl \<and>
         length (update_failed m jid now tbl) = length tbl"
  using assms by (simp add: nth_update_processing nth_update_completed nth_update_failed)

theorem status_updates_are_unconditional_witness:
  "(0::nat) < length [row1_done] \<and> row_id ([row1_done] ! 0) = uuid1 \<and>
   status ([row1_done] ! 0) = Completed \<and>
   status (update_processing uuid1 300 [row1_done] ! 0) = Processing \<and>
   status (update_failed ''lost'' uuid1 300 [row1_done] ! 0) = Failed \<and>
   row_id ([row1_done] ! 0) \<noteq> uuid2 \<and>
   update_processing uuid2 300 [row1_done] ! 0 = [row1_done] ! 0"
proof -
  have l: "(0::nat) < length [row1_done]" by simp
  have a: "row_id ([row1_done] ! 0) = uuid1" by (simp add: row1_done_def row1_def)
  have b: "status ([row1_done] ! 0) = Completed" by (simp add: row1_done_def)
  have c: "row_id ([row1_done] ! 0) \<noteq> uuid2" using a uuid_distinct by simp
  show ?thesis
    using status_updates_are_unconditional [OF l, of uuid1 300 "''lost''"]
      status_updates_are_unconditional [OF l, of uuid2 300 "''lost''"] a b c l
    by simp
qed

text \<open>
  C3. As stated, the claim fails: there is no test for a duplicate. The job is
  completed by the first delivery; the second delivery of the same message runs the
  handler a second time.
\<close>

theorem duplicate_delivery_runs_handler_twice:
  "map status (jobs (run state1 [CallWorker (worker_ok 150) job1])) = [Completed] \<and>
   handler_runs uuid1 (run state1 [CallWorker (worker_ok 150) job1]) = 1 \<and>
   handler_runs uuid1 (run state1 [CallWorker (worker_ok 150) job1, CallWorker (worker_ok 300) job1]) = 2 \<and>
   \<not> handler_runs uuid1 (run state1 [CallWorker (worker_ok 150) job1, CallWorker (worker_ok 300) job1]) \<le> 1"
proof -
  have r1: "run state1 [CallWorker (worker_ok 150) job1] = state1_done"
    by (simp add: worker_state1)
  have r2: "run state1 [CallWorker (worker_ok 150) job1, CallWorker (worker_ok 300) job1] =
      snd (emailWorker state1_done (worker_ok 300) job1)"
    by (simp add: worker_state1)
  show ?thesis
    unfolding r1 r2 worker_state1_again
    by (simp add: handler_runs_def state1_done_def row1_done_def)
qed

text \<open>
  C3, amended. Every delivery whose first UPDATE succeeds runs the handler exactly
  once, whatever the status of the row; a delivery whose first UPDATE throws runs no
  handler and leaves the table as it was. So the same message delivered \<open>n\<close> times
  runs the handler \<open>n\<close> times. The first UPDATE makes the row \<open>processing\<close>
  whatever it was: that is the status it keeps when both later statements throw.
\<close>

theorem every_delivery_runs_the_handler:
  "(\<not> isl (processing_now env) \<longrightarrow>
      handler_runs (jobId (bull_data job)) (snd (emailWorker s env job)) =
        handler_runs (jobId (bull_data job)) s + 1) \<and>
   (isl (processing_now env) \<longrightarrow>
      handler_runs (jobId (bull_data job)) (snd (emailWorker s env job)) =
        handler_runs (jobId (bull_data job)) s \<and>
      jobs (snd (emailWorker s env job)) = jobs s) \<and>
   ((\<forall>e \<in> set envs. \<not> isl (processing_now e)) \<longrightarrow>
      handler_runs (jobId (bull_data job)) (run s (map (\<lambda>e. CallWorker e job) envs)) =
        handler_runs (jobId (bull_data job)) s + length envs) \<and>
   (i < length (jobs s) \<and> row_id (jobs s ! i) = jobId (bull_data job) \<and>
    \<not> isl (processing_now env) \<and> isl (completed_now env) \<and> isl (failed_now env) \<longrightarrow>
      status (jobs (snd (emailWorker s env job)) ! i) = Processing)"
proof (intro conjI impI)
  assume "\<not> isl (processing_now env)"
  then show "handler_runs (jobId (bull_data job)) (snd (emailWorker s env job)) =
        handler_runs (jobId (bull_data job)) s + 1"
    by (simp add: handler_runs_processEmailJob)
next
  assume a: "isl (processing_now env)"
  then show "handler_runs (jobId (bull_data job)) (snd (emailWorker s env job)) =
        handler_runs (jobId (bull_data job)) s"
    by (simp add: handler_runs_processEmailJob)
  from a obtain m where "processing_now env = Inl m" by (cases "processing_now env") auto
  then show "jobs (snd (emailWorker s env job)) = jobs s"
    by (simp add: processEmailJob_db_down log_def)
next
  assume "\<forall>e \<in> set envs. \<not> isl (processing_now e)"
  then show "handler_runs (jobId (bull_data job)) (run s (map (\<lambda>e. CallWorker e job) envs)) =
        handler_runs (jobId (bull_data job)) s + length envs"
    by (rule handler_runs_deliveries)
next
  assume "i < length (jobs s) \<and> row_id (jobs s ! i) = jobId (bull_data job) \<and>
    \<not> isl (processing_now env) \<and> isl (completed_now env) \<and> isl (failed_now env)"
  then show "status (jobs (snd (emailWorker s env job)) ! i) = Processing"
    using emailWorker_named_row [of i s job env] by simp
qed

theorem every_delivery_runs_the_handler_witness:
  "\<not> isl (processing_now (worker_ok 300)) \<and>
   status (hd (jobs state1_done)) = Completed \<and>
   handler_runs (jobId (bull_data job1)) (snd (emailWorker state1_done (worker_ok 300) job1)) =
     handler_runs (jobId (bull_data job1)) state1_done + 1 \<and>
   handler_runs (jobId (bull_data job1))
     (run state1 (map (\<lambda>e. CallWorker e job1) [worker_ok 150, worker_ok 300, worker_db_lost 450])) =
     handler_runs (jobId (bull_data job1)) state1 + 3 \<and>
   status (jobs (snd (emailWorker state1_done worker_db_gone job1)) ! 0) = Processing"
proof -
  have d: "(0::nat) < length (jobs state1_done) \<and>
      row_id (jobs state1_done ! 0) = jobId (bull_data job1) \<and>
      \<not> isl (processing_now worker_db_gone) \<and> isl (completed_now worker_db_gone) \<and>
      isl (failed_now worker_db_gone)"
    by (simp add: state1_done_def row1_done_def row1_def job1_def worker_db_gone_def)
  have a: "\<not> isl (processing_now (worker_ok 300))" by (simp add: worker_ok_def)
  have b: "\<forall>e \<in> set [worker_ok 150, worker_ok 300, worker_db_lost 450]. \<not> isl (processing_now e)"
    by (simp add: worker_ok_def worker_db_lost_def)
  have c: "status (hd (jobs state1_done)) = Completed" by (simp add: state1_done_def row1_done_def)
  show ?thesis
    using every_delivery_runs_the_handler [of "worker_ok 300" job1 state1_done "[]" 0]
      every_delivery_runs_the_handler
        [of "worker_ok 300" job1 state1 "[worker_ok 150, worker_ok 300, worker_db_lost 450]" 0]
      every_delivery_runs_the_handler [of worker_db_gone job1 state1_done "[]" 0]
      a b c d
    by simp
qed

text \<open>
  C4. As stated, the claim fails in its middle part: after a submission and a
  successful run of the processor the row is \<open>completed\<close> and has its
  \<open>completed_at\<close>, but its \<open>result\<close> is still NULL.
\<close>

theorem completed_row_has_no_result:
  "fst (emailWorker state1 (worker_ok 150) job1) = Inr () \<and>
   jobs (run state0 [CallPOST env1 (Some email_body), CallWorker (worker_ok 150) job1]) = [row1_done] \<and>
   status row1_done = Completed \<and> completed_at row1_done = Some 151 \<and> result row1_done = None"
  by (simp add: POST_state0 worker_state1 state1_done_def row1_done_def row1_def)

text \<open>
  C4, amended. When the processor succeeds on a job, the row of that job has status
  \<open>completed\<close> and a \<open>completed_at\<close> that is not NULL; its \<open>result\<close> is what it
  was before (the processor returns nothing and writes no result).
\<close>

theorem success_marks_completed:
  assumes "fst (emailWorker s env job) = Inr ()"
    and "i < length (jobs s)"
    and "row_id (jobs s ! i) = jobId (bull_data job)"
  shows "status (jobs (snd (emailWorker s env job)) ! i) = Completed \<and>
         completed_at (jobs (snd (emailWorker s env job)) ! i) \<noteq> None \<and>
         result (jobs (snd (emailWorker s env job)) ! i) = result (jobs s ! i) \<and>
         row_id (jobs (snd (emailWorker s env job)) ! i) = row_id (jobs s ! i)"
proof -
  obtain t1 t2 where j: "jobs (snd (emailWorker s env job)) =
       update_completed (jobId (bull_data job)) t2
         (update_processing (jobId (bull_data job)) t1 (jobs s))"
    using emailWorker_resolves [OF assms(1)] by blast
  show ?thesis using assms(2,3) j by (simp add: nth_update_completed nth_update_processing)
qed

theorem success_marks_completed_witness:
  "fst (emailWorker state1 (worker_ok 150) job1) = Inr () \<and>
   (0::nat) < length (jobs state1) \<and>
   row_id (jobs state1 ! 0) = jobId (bull_data job1) \<and>
   status (jobs (snd (emailWorker state1 (worker_ok 150) job1)) ! 0) = Completed \<and>
   completed_at (jobs (snd (emailWorker state1 (worker_ok 150) job1)) ! 0) \<noteq> None \<and>
   result (jobs (snd (emailWorker state1 (worker_ok 150) job1)) ! 0) = None"
proof -
  have a: "fst (emailWorker state1 (worker_ok 150) job1) = Inr ()" by (simp add: worker_state1)
  have b: "(0::nat) < length (jobs state1)" by (simp add: state1_def)
  have c: "row_id (jobs state1 ! 0) = jobId (bull_data job1)"
    by (simp add: state1_def row1_def job1_def)
  have d: "result (jobs state1 ! 0) = None" by (simp add: state1_def row1_def)
  show ?thesis using success_marks_completed [OF a b c] a b c d by simp
qed

text \<open>
  C7. As stated, the claim fails: the job below is \<open>completed\<close>; its message is
  delivered again, the completing UPDATE throws, and the job ends \<open>failed\<close>. Already
  the first UPDATE of any further delivery makes the completed job \<open>processing\<close>.
\<close>

theorem completed_job_becomes_failed:
  "map status (jobs (run state0 [CallPOST env1 (Some email_body),
      CallWorker (worker_ok 150) job1])) = [Completed] \<and>
   map status (jobs (run state0 [CallPOST env1 (Some email_body),
      CallWorker (worker_ok 150) job1, CallWorker (worker_db_lost 300) job1])) = [Failed] \<and>
   map status (update_processing uuid1 300 (jobs (run state0 [CallPOST env1 (Some email_body),
      CallWorker (worker_ok 150) job1]))) = [Processing]"
proof -
  have a: "run state0 [CallPOST env1 (Some email_body), CallWorker (worker_ok 150) job1] = state1_done"
    by (simp add: POST_state0 worker_state1)
  have b: "run state0 [CallPOST env1 (Some email_body),
      CallWorker (worker_ok 150) job1, CallWorker (worker_db_lost 300) job1] =
      snd (emailWorker state1_done (worker_db_lost 300) job1)"
    by (simp add: POST_state0 worker_state1)
  show ?thesis
    unfolding a b worker_state1_db_lost
    by (simp add: state1_done_def row1_done_def row1_def update_processing_def sql_update_jobs_def
        update_updated_at_column_def)
qed

text \<open>
  C7, amended. Along every run a row keeps its place, its id and its \<open>result\<close>
  (nothing ever writes a result). \<open>POST\<close> and \<open>GET\<close> change no row that exists, and
  a delivery changes no row but the one its message names. The status of that one is
  not kept, whatever it was: after a delivery whose first UPDATE succeeds it is
  \<open>completed\<close> when the completing UPDATE succeeds, else \<open>failed\<close> when the failing
  UPDATE succeeds, else \<open>processing\<close>.
\<close>

theorem result_never_changes:
  assumes "i < length (jobs s)"
  shows "i < length (jobs (run s cs)) \<and>
         row_id (jobs (run s cs) ! i) = row_id (jobs s ! i) \<and>
         result (jobs (run s cs) ! i) = result (jobs s ! i) \<and>
         jobs (after s (CallPOST penv rq)) ! i = jobs s ! i \<and>
         jobs (after s (CallGET db_error ps)) ! i = jobs s ! i \<and>
         (row_id (jobs s ! i) \<noteq> jobId (bull_data job) \<longrightarrow>
            jobs (after s (CallWorker wenv job)) ! i = jobs s ! i) \<and>
         (row_id (jobs s ! i) = jobId (bull_data job) \<and> \<not> isl (processing_now wenv) \<longrightarrow>
            status (jobs (after s (CallWorker wenv job)) ! i) =
              (if \<not> isl (completed_now wenv) then Completed
               else if \<not> isl (failed_now wenv) then Failed else Processing))"
  using run_keeps_core [OF assms, of cs] POST_keeps_rows [OF assms, of penv rq]
    emailWorker_keeps_others [OF assms, of job wenv] emailWorker_named_row [OF assms, of job wenv]
  by (simp add: same_job_def)

theorem result_never_changes_witness:
  "(0::nat) < length (jobs state2) \<and>
   row_id (jobs state2 ! 0) \<noteq> jobId (bull_data job2) \<and>
   result (jobs (run state2 [CallWorker (worker_ok 150) job1, CallPOST env1 (Some sms_body),
      CallWorker (worker_db_lost 300) job1, CallGET None []]) ! 0) = None \<and>
   row_id (jobs (run state2 [CallWorker (worker_ok 150) job1, CallPOST env1 (Some sms_body),
      CallWorker (worker_db_lost 300) job1, CallGET None []]) ! 0) = uuid1 \<and>
   jobs (after state2 (CallWorker (worker_ok 150) job2)) ! 0 = row1 \<and>
   row_id (jobs state2 ! 1) = jobId (bull_data job2) \<and>
   status (jobs (after state2 (CallWorker (worker_db_lost 150) job2)) ! 1) = Failed"
proof -
  have e: "(1::nat) < length (jobs state2)" by (simp add: state2_def)
  have f: "row_id (jobs state2 ! 1) = jobId (bull_data job2)"
    by (simp add: state2_def row2_def job2_def)
  have g: "\<not> isl (processing_now (worker_db_lost 150)) \<and> isl (completed_now (worker_db_lost 150)) \<and>
      \<not> isl (failed_now (worker_db_lost 150))"
    by (simp add: worker_db_lost_def)
  have a: "(0::nat) < length (jobs state2)" by (simp add: state2_def)
  have b: "row_id (jobs state2 ! 0) \<noteq> jobId (bull_data job2)"
    by (simp add: state2_def row1_def job2_def uuid_distinct)
  have c: "jobs state2 ! 0 = row1" by (simp add: state2_def)
  have d: "result row1 = None \<and> row_id row1 = uuid1" by (simp add: row1_def)
  show ?thesis
    using result_never_changes [OF a, of "[CallWorker (worker_ok 150) job1,
        CallPOST env1 (Some sms_body), CallWorker (worker_db_lost 300) job1, CallGET None []]"
        env1 "Some sms_body" None "[]" job2 "worker_ok 150"]
      result_never_changes [OF e, of "[]" env1 "Some sms_body" None "[]" job2 "worker_db_lost 150"]
      a b c d f g
    by simp
qed




text \<open>
  C9. As stated, the claim fails twice. A job whose three attempts all fail is
  \<open>failed\<close> and its \<open>completed_at\<close> is still NULL; and a job that is completed a
  second time gets a second \<open>completed_at\<close>.
\<close>

theorem completed_at_not_once:
  "attempts (bull_options job1) = 3 \<and>
   map status (jobs (run state1 [CallWorker (worker_db_lost 150) job1,
      CallWorker (worker_db_lost 250) job1, CallWorker (worker_db_lost 350) job1])) = [Failed] \<and>
   map completed_at (jobs (run state1 [CallWorker (worker_db_lost 150) job1,
      CallWorker (worker_db_lost 250) job1, CallWorker (worker_db_lost 350) job1])) = [None] \<and>
   map completed_at (jobs (run state1 [CallWorker (worker_ok 150) job1])) = [Some 151] \<and>
   map completed_at (jobs (run state1 [CallWorker (worker_ok 150) job1,
      CallWorker (worker_ok 300) job1])) = [Some 301]"
proof -
  have a: "jobs (run state1 [CallWorker (worker_db_lost 150) job1,
      CallWorker (worker_db_lost 250) job1, CallWorker (worker_db_lost 350) job1]) =
      [row1\<lparr>status := Failed, updated_at := 351,
         error_message := Some ''Connection terminated unexpectedly''\<rparr>]"
    by (simp add: emailWorker_def processEmailJob_def worker_db_lost_def state1_def
      row1_def job1_def log_def Let_def update_processing_def update_failed_def
      sql_update_jobs_def update_updated_at_column_def)
  have b: "run state1 [CallWorker (worker_ok 150) job1] = state1_done"
    by (simp add: worker_state1)
  have c: "run state1 [CallWorker (worker_ok 150) job1, CallWorker (worker_ok 300) job1] =
      snd (emailWorker state1_done (worker_ok 300) job1)"
    by (simp add: worker_state1)
  show ?thesis
    unfolding a b c worker_state1_again
    by (simp add: job1_def state1_done_def row1_done_def row1_def)
qed

text \<open>
  C9, amended. Only the completing UPDATE writes \<open>completed_at\<close>, and it writes it
  every time: after a run of the processor that succeeds, \<open>completed_at\<close> of the job
  is the time of that UPDATE; after a run that fails it is what it was before. Every
  status UPDATE sets \<open>updated_at\<close> to its own \<open>NOW()\<close>.
\<close>

theorem completed_at_only_on_completion:
  assumes "i < length (jobs s)"
    and "row_id (jobs s ! i) = jobId (bull_data job)"
  shows "(fst (emailWorker s env job) = Inr () \<longrightarrow>
            completed_now env = Inr (updated_at (jobs (snd (emailWorker s env job)) ! i)) \<and>
            completed_at (jobs (snd (emailWorker s env job)) ! i) =
              Some (updated_at (jobs (snd (emailWorker s env job)) ! i))) \<and>
         (isl (fst (emailWorker s env job)) \<longrightarrow>
            completed_at (jobs (snd (emailWorker s env job)) ! i) = completed_at (jobs s ! i)) \<and>
         completed_at (update_processing (row_id (jobs s ! i)) now (jobs s) ! i) =
           completed_at (jobs s ! i) \<and>
         completed_at (update_failed m (row_id (jobs s ! i)) now (jobs s) ! i) =
           completed_at (jobs s ! i) \<and>
         completed_at (update_completed (row_id (jobs s ! i)) now (jobs s) ! i) = Some now \<and>
         updated_at (update_processing (row_id (jobs s ! i)) now (jobs s) ! i) = now \<and>
         updated_at (update_completed (row_id (jobs s ! i)) now (jobs s) ! i) = now \<and>
         updated_at (update_failed m (row_id (jobs s ! i)) now (jobs s) ! i) = now"
proof (intro conjI impI)
  assume ok: "fst (emailWorker s env job) = Inr ()"
  obtain t1 t2 where t: "completed_now env = Inr t2"
    and j: "jobs (snd (emailWorker s env job)) =
       update_completed (jobId (bull_data job)) t2
         (update_processing (jobId (bull_data job)) t1 (jobs s))"
    using emailWorker_resolves [OF ok] by blast
  show "completed_now env = Inr (updated_at (jobs (snd (emailWorker s env job)) ! i))"
    using assms t j by (simp add: nth_update_completed nth_update_processing)
  show "completed_at (jobs (snd (emailWorker s env job)) ! i) =
              Some (updated_at (jobs (snd (emailWorker s env job)) ! i))"
    using assms j by (simp add: nth_update_completed nth_update_processing)
next
  assume "isl (fst (emailWorker s env job))"
  then show "completed_at (jobs (snd (emailWorker s env job)) ! i) = completed_at (jobs s ! i)"
    using emailWorker_rejects [of s env job] assms
    by (auto simp: nth_update_failed nth_update_processing)
qed (use assms in \<open>simp_all add: nth_update_processing nth_update_completed nth_update_failed\<close>)


theorem completed_at_only_on_completion_witness:
  "(0::nat) < length (jobs state1_done) \<and>
   row_id (jobs state1_done ! 0) = jobId (bull_data job1) \<and>
   completed_at (jobs state1_done ! 0) = Some 151 \<and>
   fst (emailWorker state1_done (worker_ok 300) job1) = Inr () \<and>
   completed_at (jobs (snd (emailWorker state1_done (worker_ok 300) job1)) ! 0) = Some 301 \<and>
   isl (fst (emailWorker state1_done (worker_db_lost 300) job1)) \<and>
   completed_at (jobs (snd (emailWorker state1_done (worker_db_lost 300) job1)) ! 0) = Some 151 \<and>
   updated_at (update_failed ''lost'' uuid1 400 (jobs state1_done) ! 0) = 400"
proof -
  have a: "(0::nat) < length (jobs state1_done)" by (simp add: state1_done_def)
  have b: "row_id (jobs state1_done ! 0) = jobId (bull_data job1)"
    by (simp add: state1_done_def row1_done_def row1_def job1_def)
  have c: "completed_at (jobs state1_done ! 0) = Some 151"
    by (simp add: state1_done_def row1_done_def)
  have d: "fst (emailWorker state1_done (worker_ok 300) job1) = Inr ()"
    by (simp add: worker_state1_again)
  have e: "isl (fst (emailWorker state1_done (worker_db_lost 300) job1))"
    by (simp add: worker_state1_db_lost)
  have f: "completed_now (worker_ok 300) = Inr 301" by (simp add: worker_ok_def)
  have g: "row_id (jobs state1_done ! 0) = uuid1"
    by (simp add: state1_done_def row1_done_def row1_def)
  show ?thesis
    using completed_at_only_on_completion [OF a b, of "worker_ok 300" 400 "''lost''"]
      completed_at_only_on_completion [OF a b, of "worker_db_lost 300" 400 "''lost''"]
      a b c d e f g
    by simp
qed

end
